theory Spec2Isabelle
  imports Main "HOL-Library.AList"
begin

section \<open>The mods manifest of msc and its reconciliation with the disk\<close>

text \<open>
  A shallow embedding of \<^verbatim>\<open>src/msc/mods.py\<close>. Python classes are records, \<^verbatim>\<open>Optional[str]\<close>
  is \<open>string option\<close>, exceptions are values of the type \<open>error\<close>, and every function
  that touches the disk takes the file system and returns the new one together with its
  result, so the state an exception leaves behind is part of the model.

  Several classes of the source share field names (\<^verbatim>\<open>filename\<close>, \<^verbatim>\<open>loader\<close>, \<^verbatim>\<open>source\<close>, ...).
  The fields of \<^verbatim>\<open>ModEntry\<close> keep their names (\<^verbatim>\<open>id\<close>, \<^verbatim>\<open>name\<close> and \<^verbatim>\<open>notes\<close> become
  \<open>entry_id\<close>, \<open>entry_name\<close> and \<open>entry_notes\<close>); the fields of the other classes carry a short prefix.
\<close>

subsection \<open>Strings and truthiness\<close>

text \<open>
  Python tests \<^verbatim>\<open>Optional[str]\<close> values by truthiness: \<^verbatim>\<open>None\<close> and the empty string are
  both false. \<^verbatim>\<open>a or b\<close> yields \<^verbatim>\<open>a\<close> when it is truthy and \<^verbatim>\<open>b\<close> otherwise.
  Strings are lists of 8-bit characters and stand for ASCII strings: on these \<^verbatim>\<open>str.lower\<close>
  changes exactly the letters \<^verbatim>\<open>A\<close> to \<^verbatim>\<open>Z\<close>, and a character is one byte of a file name.
\<close>

definition truthy :: "string option \<Rightarrow> bool" where
  "truthy v = (case v of None \<Rightarrow> False | Some s \<Rightarrow> s \<noteq> [])"

definition or_else :: "string option \<Rightarrow> string option \<Rightarrow> string option" where
  "or_else a b = (if truthy a then a else b)"

definition is_upper :: "char \<Rightarrow> bool" where
  "is_upper c = ((65::nat) \<le> of_char c \<and> (of_char c :: nat) \<le> 90)"

definition is_lower :: "char \<Rightarrow> bool" where
  "is_lower c = ((97::nat) \<le> of_char c \<and> (of_char c :: nat) \<le> 122)"

definition is_digit :: "char \<Rightarrow> bool" where
  "is_digit c = ((48::nat) \<le> of_char c \<and> (of_char c :: nat) \<le> 57)"

definition is_alnum :: "char \<Rightarrow> bool" where
  "is_alnum c = (is_upper c \<or> is_lower c \<or> is_digit c)"

definition lower_char :: "char \<Rightarrow> char" where
  "lower_char c = (if is_upper c then char_of ((of_char c :: nat) + 32) else c)"

definition upper_char :: "char \<Rightarrow> char" where
  "upper_char c = (if is_lower c then char_of ((of_char c :: nat) - 32) else c)"

definition lower :: "string \<Rightarrow> string" where
  "lower s = map lower_char s"

fun join :: "string \<Rightarrow> string list \<Rightarrow> string" where
  "join sep [] = []"
| "join sep [x] = x"
| "join sep (x # y # ys) = x @ sep @ join sep (y # ys)"

subsection \<open>Errors\<close>

text \<open>
  \<^verbatim>\<open>ManifestError\<close> carries its message. The operating-system exceptions that
  \<^verbatim>\<open>mkdir\<close>, \<^verbatim>\<open>iterdir\<close>, \<^verbatim>\<open>write_text\<close>, \<^verbatim>\<open>unlink\<close> and \<^verbatim>\<open>shutil.move\<close> raise carry the name
  of their Python class; \<open>ValueError\<close> stands for what \<^verbatim>\<open>json.loads\<close> and
  \<^verbatim>\<open>model_validate\<close> raise on a document that is not a manifest.
\<close>

datatype error = ManifestError string | OSError string | ValueError

subsection \<open>The file system\<close>

text \<open>
  A path is the list of its components from the root. The file system is an association
  list from paths to nodes, in the order in which a directory listing yields them; the
  root always exists. The data directory of the configuration is such a path, and the name
  of the mods directory is taken to be a single component (non-empty, without a slash,
  neither \<^verbatim>\<open>.\<close> nor \<^verbatim>\<open>..\<close>), so that \<^verbatim>\<open>data_dir / name\<close> appends it. The file name of an
  entry is any string: it is joined to a directory as pathlib does and looked up as the
  operating system does, see below.
\<close>

type_synonym path = "string list"

datatype node = File string | Dir

type_synonym fs = "(path \<times> node) list"

definition node_at :: "fs \<Rightarrow> path \<Rightarrow> node option" where
  "node_at fs p = (if p = [] then Some Dir else map_of fs p)"

definition exists :: "fs \<Rightarrow> path \<Rightarrow> bool" where
  "exists fs p = (node_at fs p \<noteq> None)"

definition is_file :: "fs \<Rightarrow> path \<Rightarrow> bool" where
  "is_file fs p = (case node_at fs p of Some (File c) \<Rightarrow> True | _ \<Rightarrow> False)"

definition is_dir :: "fs \<Rightarrow> path \<Rightarrow> bool" where
  "is_dir fs p = (node_at fs p = Some Dir)"

definition read_bytes :: "fs \<Rightarrow> path \<Rightarrow> string" where
  "read_bytes fs p = (case node_at fs p of Some (File c) \<Rightarrow> c | _ \<Rightarrow> [])"

definition iterdir :: "fs \<Rightarrow> path \<Rightarrow> path list" where
  "iterdir fs d = remdups (filter (\<lambda>p. p \<noteq> [] \<and> butlast p = d) (map fst fs))"

text \<open>
  \<^verbatim>\<open>Path.mkdir(parents=True, exist_ok=True)\<close>: a directory that exists is left alone, a
  regular file in its place is an error (\<^verbatim>\<open>FileExistsError\<close> for the path itself,
  \<^verbatim>\<open>NotADirectoryError\<close> for one of its parents), and a missing directory is created after
  its parent. The recursion runs over the reversed path, whose tail is the parent.
\<close>

fun mkdir_rev :: "string list \<Rightarrow> fs \<Rightarrow> error + fs" where
  "mkdir_rev [] fs = Inr fs"
| "mkdir_rev (c # rp) fs =
     (case map_of fs (rev (c # rp)) of
        Some Dir \<Rightarrow> Inr fs
      | Some (File x) \<Rightarrow> Inl (OSError ''FileExistsError'')
      | None \<Rightarrow>
          (case mkdir_rev rp fs of
             Inl e \<Rightarrow> Inl (OSError ''NotADirectoryError'')
           | Inr fs1 \<Rightarrow> Inr (AList.update (rev (c # rp)) Dir fs1)))"

definition mkdir_parents :: "path \<Rightarrow> fs \<Rightarrow> error + fs" where
  "mkdir_parents p fs = mkdir_rev (rev p) fs"

text \<open>\<^verbatim>\<open>Path.write_text\<close>: the parent must be a directory and the target must not be one.\<close>

definition write_text :: "path \<Rightarrow> string \<Rightarrow> fs \<Rightarrow> error + fs" where
  "write_text p content fs =
     (if p = [] then Inl (OSError ''IsADirectoryError'')
      else case node_at fs (butlast p) of
        None \<Rightarrow> Inl (OSError ''FileNotFoundError'')
      | Some (File x) \<Rightarrow> Inl (OSError ''NotADirectoryError'')
      | Some Dir \<Rightarrow>
          (case node_at fs p of
             Some Dir \<Rightarrow> Inl (OSError ''IsADirectoryError'')
           | _ \<Rightarrow> Inr (AList.update p (File content) fs)))"

text \<open>\<^verbatim>\<open>Path.unlink\<close> removes a regular file and refuses a directory.\<close>

definition unlink :: "path \<Rightarrow> fs \<Rightarrow> error + fs" where
  "unlink p fs =
     (case node_at fs p of
        None \<Rightarrow> Inl (OSError ''FileNotFoundError'')
      | Some Dir \<Rightarrow> Inl (OSError ''IsADirectoryError'')
      | Some (File c) \<Rightarrow> Inr (AList.delete p fs))"

text \<open>
  \<^verbatim>\<open>shutil.move(src, dst)\<close> on one file system: a destination that is a directory
  receives the source under its own name, and refuses when that name is taken; otherwise
  the source is renamed into a directory that exists, a regular file replacing a regular
  file, a directory moving with everything below it.
\<close>

definition reroot :: "path \<Rightarrow> path \<Rightarrow> path \<Rightarrow> path" where
  "reroot src dst p =
     (if take (length src) p = src then dst @ drop (length src) p else p)"

definition move :: "path \<Rightarrow> path \<Rightarrow> fs \<Rightarrow> error + fs" where
  "move src dst fs =
     (let real_dst = (if is_dir fs dst then dst @ [last src] else dst) in
      if is_dir fs dst \<and> exists fs real_dst then Inl (OSError ''shutil.Error'')
      else if \<not> is_dir fs (butlast real_dst) then Inl (OSError ''FileNotFoundError'')
      else case node_at fs src of
        None \<Rightarrow> Inl (OSError ''FileNotFoundError'')
      | Some (File c) \<Rightarrow> Inr (AList.update real_dst (File c) (AList.delete src fs))
      | Some Dir \<Rightarrow>
          (if exists fs real_dst then Inl (OSError ''NotADirectoryError'')
           else if take (length src) real_dst = src then Inl (OSError ''shutil.Error'')
           else Inr (map (\<lambda>(p, n). (reroot src real_dst p, n)) fs)))"

subsection \<open>Paths built from strings\<close>

text \<open>
  \<^verbatim>\<open>dir / name\<close> for an arbitrary string: pathlib splits the string at slashes and drops
  the empty and the \<^verbatim>\<open>.\<close> components; a string that starts with a slash replaces the
  directory. A component \<^verbatim>\<open>..\<close> is kept, for the operating system to resolve.
\<close>

fun split_on :: "char \<Rightarrow> string \<Rightarrow> string list" where
  "split_on c [] = [[]]"
| "split_on c (x # xs) =
     (if x = c then [] # split_on c xs
      else (case split_on c xs of [] \<Rightarrow> [[x]] | y # ys \<Rightarrow> (x # y) # ys))"

definition path_parts :: "string \<Rightarrow> string list" where
  "path_parts s = filter (\<lambda>c. c \<noteq> [] \<and> c \<noteq> ''.'') (split_on (CHR ''/'') s)"

definition joinpath :: "path \<Rightarrow> string \<Rightarrow> path" where
  "joinpath p s = (if take 1 s = ''/'' then path_parts s else p @ path_parts s)"

text \<open>
  The operating system walks a path from the root: every component is looked up in a
  directory, and \<^verbatim>\<open>..\<close> leads to the parent. The walk finds nothing when it has to pass
  through something that is not a directory; otherwise its result is the path without
  \<^verbatim>\<open>..\<close>, whose last component need not exist. A component of more than 255 bytes, or a
  path of more than 4095, is refused with \<^verbatim>\<open>ENAMETOOLONG\<close>, an error that \<^verbatim>\<open>Path.exists\<close>
  does not swallow. There are no symbolic links.
\<close>

definition NAME_MAX :: nat where
  "NAME_MAX = 255"

definition PATH_MAX :: nat where
  "PATH_MAX = 4096"

definition path_length :: "path \<Rightarrow> nat" where
  "path_length p = length (concat (map (\<lambda>c. CHR ''/'' # c) p))"

fun resolve_from :: "fs \<Rightarrow> path \<Rightarrow> string list \<Rightarrow> error + path option" where
  "resolve_from fs cur [] = Inr (Some cur)"
| "resolve_from fs cur (c # cs) =
     (if \<not> is_dir fs cur then Inr None
      else if NAME_MAX < length c then Inl (OSError ''ENAMETOOLONG'')
      else if c = ''..'' then resolve_from fs (butlast cur) cs
      else resolve_from fs (cur @ [c]) cs)"

definition realpath :: "fs \<Rightarrow> path \<Rightarrow> error + path option" where
  "realpath fs p =
     (if PATH_MAX \<le> path_length p then Inl (OSError ''ENAMETOOLONG'') else resolve_from fs [] p)"

definition os_exists :: "fs \<Rightarrow> path \<Rightarrow> error + bool" where
  "os_exists fs p =
     (case realpath fs p of
        Inl e \<Rightarrow> Inl e
      | Inr None \<Rightarrow> Inr False
      | Inr (Some q) \<Rightarrow> Inr (exists fs q))"

text \<open>
  \<^verbatim>\<open>mkdir(parents=True, exist_ok=True)\<close> on such a path creates the directories that are
  missing along the walk; it returns the file system it has reached, also when it stops at a
  regular file or at a name that is too long.
\<close>

fun makedirs_from :: "path \<Rightarrow> string list \<Rightarrow> fs \<Rightarrow> (error + unit) \<times> fs" where
  "makedirs_from cur [] fs = (Inr (), fs)"
| "makedirs_from cur (c # cs) fs =
     (if NAME_MAX < length c then (Inl (OSError ''ENAMETOOLONG''), fs)
      else if c = ''..'' then makedirs_from (butlast cur) cs fs
      else case node_at fs (cur @ [c]) of
             None \<Rightarrow> makedirs_from (cur @ [c]) cs (AList.update (cur @ [c]) Dir fs)
           | Some Dir \<Rightarrow> makedirs_from (cur @ [c]) cs fs
           | Some (File x) \<Rightarrow>
               (Inl (OSError (if cs = [] then ''FileExistsError'' else ''NotADirectoryError'')), fs))"

definition makedirs :: "path \<Rightarrow> fs \<Rightarrow> (error + unit) \<times> fs" where
  "makedirs p fs =
     (if PATH_MAX \<le> path_length p then (Inl (OSError ''ENAMETOOLONG''), fs)
      else makedirs_from [] p fs)"

text \<open>
  \<^verbatim>\<open>shutil.move\<close> and \<^verbatim>\<open>unlink\<close> on such paths act on what the walk finds. Moving something
  onto itself changes nothing; the root, and a source named by a final \<^verbatim>\<open>..\<close>, cannot be
  moved.
\<close>

definition shutil_move :: "path \<Rightarrow> path \<Rightarrow> fs \<Rightarrow> error + fs" where
  "shutil_move src dst fs =
     (case realpath fs src of
        Inl e \<Rightarrow> Inl e
      | Inr None \<Rightarrow> Inl (OSError ''FileNotFoundError'')
      | Inr (Some s) \<Rightarrow>
          (case realpath fs dst of
             Inl e \<Rightarrow> Inl e
           | Inr None \<Rightarrow> Inl (OSError ''FileNotFoundError'')
           | Inr (Some d) \<Rightarrow>
               if s = [] \<or> (src \<noteq> [] \<and> last src = ''..'') then Inl (OSError ''shutil.Error'')
               else if s = d then (if exists fs s then Inr fs else Inl (OSError ''FileNotFoundError''))
               else move s d fs))"

definition os_unlink :: "path \<Rightarrow> fs \<Rightarrow> error + fs" where
  "os_unlink p fs =
     (case realpath fs p of
        Inl e \<Rightarrow> Inl e
      | Inr None \<Rightarrow> Inl (OSError ''FileNotFoundError'')
      | Inr (Some q) \<Rightarrow> unlink q fs)"

subsection \<open>The data model\<close>

record ModHashes =
  sha256 :: "string option"
  sha512 :: "string option"
  sha1 :: "string option"
  md5 :: "string option"

record ModSource =
  ms_type :: string
  ms_path :: "string option"
  ms_url :: "string option"
  ms_project_id :: "string option"
  ms_version_id :: "string option"
  ms_slug :: "string option"
  ms_download_url :: "string option"
  ms_notes :: "string option"

record ModEntry =
  entry_id :: string
  entry_name :: "string option"
  side :: string
  enabled :: bool
  filename :: string
  source :: ModSource
  version :: "string option"
  mc_version :: "string option"
  loader :: "string option"
  installed_at :: "string option"
  hashes :: "ModHashes option"
  entry_notes :: "string option"

record ModManifest =
  schema_version :: int
  m_loader :: "string option"
  m_minecraft_version :: "string option"
  m_mods_dir :: string
  mods :: "ModEntry list"

record ModFile =
  f_filename :: string
  f_path :: path
  f_location :: string
  f_sha256 :: "string option"

record ManifestEntryStatus =
  entry :: ModEntry
  location :: "string option"
  present :: bool
  hash_ok :: "bool option"

record Inventory =
  entries :: "ManifestEntryStatus list"
  extras :: "ModFile list"

text \<open>Of \<^verbatim>\<open>MscConfig\<close>, the fields that \<^verbatim>\<open>mods.py\<close> reads.\<close>

record MscConfig =
  data_dir :: path
  server_type :: string
  minecraft_version :: string
  api_user_agent :: string
  curseforge_api_key :: "string option"

definition MANIFEST_FILENAME :: string where
  "MANIFEST_FILENAME = ''.mscmods.json''"

definition DEFAULT_MODS_DIR :: string where
  "DEFAULT_MODS_DIR = ''mods''"

definition DEFAULT_DISABLED_DIR_SUFFIX :: string where
  "DEFAULT_DISABLED_DIR_SUFFIX = ''-disabled''"

definition SUPPORTED_SCHEMA_VERSION :: int where
  "SUPPORTED_SCHEMA_VERSION = 1"

subsection \<open>Methods of the manifest\<close>

fun find :: "ModManifest \<Rightarrow> string \<Rightarrow> error + ModEntry" where
  "find m mod_id =
     (case List.find (\<lambda>e. entry_id e = mod_id) (mods m) of
        Some e \<Rightarrow> Inr e
      | None \<Rightarrow> Inl (ManifestError (''Mod '' @ [CHR 0x27] @ mod_id @ [CHR 0x27] @ '' not found in manifest'')))"

definition add :: "ModManifest \<Rightarrow> ModEntry \<Rightarrow> error + ModManifest" where
  "add m e =
     (if list_ex (\<lambda>x. entry_id x = entry_id e) (mods m)
      then Inl (ManifestError (''Mod '' @ [CHR 0x27] @ entry_id e @ [CHR 0x27] @ '' already exists in manifest''))
      else Inr (m\<lparr>mods := mods m @ [e]\<rparr>))"

definition remove :: "ModManifest \<Rightarrow> string \<Rightarrow> (error + unit) \<times> ModManifest" where
  "remove m mod_id =
     (let m' = m\<lparr>mods := filter (\<lambda>e. entry_id e \<noteq> mod_id) (mods m)\<rparr> in
      if length (mods m') = length (mods m)
      then (Inl (ManifestError (''Mod '' @ [CHR 0x27] @ mod_id @ [CHR 0x27] @ '' not found in manifest'')), m')
      else (Inr (), m'))"

subsection \<open>Classification of one entry\<close>

definition status :: "ManifestEntryStatus \<Rightarrow> string" where
  "status s =
     (if \<not> present s then ''missing''
      else if enabled (entry s) \<and> location s \<noteq> Some ''mods'' then ''moved''
      else if \<not> enabled (entry s) \<and> location s \<noteq> Some ''mods-disabled'' then ''moved''
      else if hash_ok s = Some False then ''hash-mismatch''
      else ''ok'')"

definition count_status :: "Inventory \<Rightarrow> string \<Rightarrow> nat" where
  "count_status ivt s = length (filter (\<lambda>e. status e = s) (entries ivt))"

definition summary :: "Inventory \<Rightarrow> (string \<times> nat) list" where
  "summary ivt =
     [(''total'', length (entries ivt)),
      (''ok'', count_status ivt ''ok''),
      (''missing'', count_status ivt ''missing''),
      (''moved'', count_status ivt ''moved''),
      (''hash_mismatch'', count_status ivt ''hash-mismatch''),
      (''extras'', length (extras ivt))]"

subsection \<open>Directory layout\<close>

definition manifest_path :: "MscConfig \<Rightarrow> path" where
  "manifest_path cfg = (data_dir cfg @ [DEFAULT_MODS_DIR]) @ [MANIFEST_FILENAME]"

definition mods_dir :: "MscConfig \<Rightarrow> ModManifest option \<Rightarrow> path" where
  "mods_dir cfg manifest =
     data_dir cfg @ [case manifest of Some m \<Rightarrow> m_mods_dir m | None \<Rightarrow> DEFAULT_MODS_DIR]"

definition disabled_dir :: "MscConfig \<Rightarrow> ModManifest option \<Rightarrow> path" where
  "disabled_dir cfg manifest =
     data_dir cfg @
       [(case manifest of Some m \<Rightarrow> m_mods_dir m | None \<Rightarrow> DEFAULT_MODS_DIR) @ DEFAULT_DISABLED_DIR_SUFFIX]"

text \<open>
  A failing primitive leaves the file system as it was; an operation made of several
  steps returns the file system that the steps before the failure produced.
\<close>

definition ensure_directories :: "MscConfig \<Rightarrow> ModManifest option \<Rightarrow> fs \<Rightarrow> (error + unit) \<times> fs" where
  "ensure_directories cfg manifest fs =
     (case mkdir_parents (mods_dir cfg manifest) fs of
        Inl e \<Rightarrow> (Inl e, fs)
      | Inr fs1 \<Rightarrow>
          (case mkdir_parents (disabled_dir cfg manifest) fs1 of
             Inl e \<Rightarrow> (Inl e, fs1)
           | Inr fs2 \<Rightarrow> (Inr (), fs2)))"

subsection \<open>Scanning the two directories\<close>

text \<open>
  \<^verbatim>\<open>Path.name\<close> is the last component; \<^verbatim>\<open>Path.suffix\<close> starts at the last dot of the name,
  unless that dot is the first or the last character; \<^verbatim>\<open>Path.stem\<close> is the rest.
\<close>

definition path_name :: "path \<Rightarrow> string" where
  "path_name p = (if p = [] then [] else last p)"

definition rfind_dot :: "string \<Rightarrow> nat option" where
  "rfind_dot s =
     (if CHR ''.'' \<in> set s
      then Some (length s - 1 - length (takeWhile (\<lambda>c. c \<noteq> CHR ''.'') (rev s)))
      else None)"

definition path_suffix :: "string \<Rightarrow> string" where
  "path_suffix n =
     (case rfind_dot n of
        None \<Rightarrow> []
      | Some i \<Rightarrow> if 0 < i \<and> i + 1 < length n then drop i n else [])"

definition path_stem :: "string \<Rightarrow> string" where
  "path_stem n =
     (case rfind_dot n of
        None \<Rightarrow> n
      | Some i \<Rightarrow> if 0 < i \<and> i + 1 < length n then take i n else n)"

definition is_mod_file :: "fs \<Rightarrow> path \<Rightarrow> bool" where
  "is_mod_file fs f =
     (is_file fs f \<and> (path_suffix (path_name f) = ''.jar'' \<or> path_suffix (path_name f) = ''.zip''))"

definition iter_mod_files :: "fs \<Rightarrow> path \<Rightarrow> error + path list" where
  "iter_mod_files fs directory =
     (case node_at fs directory of
        None \<Rightarrow> Inr []
      | Some (File c) \<Rightarrow> Inl (OSError ''NotADirectoryError'')
      | Some Dir \<Rightarrow> Inr (filter (is_mod_file fs) (iterdir fs directory)))"

text \<open>
  The digest \<^verbatim>\<open>_sha256\<close> computes with \<^verbatim>\<open>hashlib\<close> is a parameter \<open>H\<close> of the model, from
  the bytes of a file to the hexadecimal digest. A Python dict keeps its keys in insertion
  order and assigning to a key that is present replaces the value in place, which is
  \<open>AList.update\<close> on an association list.
\<close>

fun scan_into :: "(string \<Rightarrow> string) \<Rightarrow> fs \<Rightarrow> string \<Rightarrow> path list \<Rightarrow>
    (string \<times> ModFile) list \<Rightarrow> (string \<times> ModFile) list" where
  "scan_into H fs loc [] files = files"
| "scan_into H fs loc (file # rest) files =
     scan_into H fs loc rest
       (AList.update (path_name file)
          \<lparr>f_filename = path_name file, f_path = file, f_location = loc,
           f_sha256 = Some (H (read_bytes fs file))\<rparr> files)"

definition scan_files :: "(string \<Rightarrow> string) \<Rightarrow> MscConfig \<Rightarrow> ModManifest \<Rightarrow> fs \<Rightarrow>
    error + (string \<times> ModFile) list" where
  "scan_files H cfg manifest fs =
     (case iter_mod_files fs (mods_dir cfg (Some manifest)) of
        Inl e \<Rightarrow> Inl e
      | Inr enabled_files \<Rightarrow>
          (case iter_mod_files fs (disabled_dir cfg (Some manifest)) of
             Inl e \<Rightarrow> Inl e
           | Inr disabled_files \<Rightarrow>
               Inr (scan_into H fs ''mods-disabled'' disabled_files
                      (scan_into H fs ''mods'' enabled_files []))))"

subsection \<open>Inventory\<close>

text \<open>
  The body of the loop over \<^verbatim>\<open>manifest.mods\<close>: \<open>file_info\<close> is what
  \<^verbatim>\<open>remaining_files.pop(entry.filename, None)\<close> returned.
\<close>

definition entry_status :: "ModEntry \<Rightarrow> ModFile option \<Rightarrow> ManifestEntryStatus" where
  "entry_status e file_info =
     \<lparr>entry = e,
      location = (case file_info of Some f \<Rightarrow> Some (f_location f) | None \<Rightarrow> None),
      present = (file_info \<noteq> None),
      hash_ok =
        (case file_info of
           None \<Rightarrow> None
         | Some f \<Rightarrow>
             (case hashes e of
                None \<Rightarrow> None
              | Some h \<Rightarrow> if truthy (sha256 h) then Some (f_sha256 f = sha256 h) else None))\<rparr>"

fun inventory_loop :: "ModEntry list \<Rightarrow> (string \<times> ModFile) list \<Rightarrow> ManifestEntryStatus list \<Rightarrow>
    ManifestEntryStatus list \<times> (string \<times> ModFile) list" where
  "inventory_loop [] remaining_files statuses = (statuses, remaining_files)"
| "inventory_loop (e # es) remaining_files statuses =
     inventory_loop es (AList.delete (filename e) remaining_files)
       (statuses @ [entry_status e (map_of remaining_files (filename e))])"

text \<open>
  Every operation of the module receives the manifest object and may assign to it, so
  each is modelled as returning the manifest it leaves behind next to the file system.
\<close>

definition inventory :: "(string \<Rightarrow> string) \<Rightarrow> MscConfig \<Rightarrow> ModManifest \<Rightarrow> fs \<Rightarrow>
    (error + Inventory) \<times> fs \<times> ModManifest" where
  "inventory H cfg manifest fs =
     (case ensure_directories cfg (Some manifest) fs of
        (Inl e, fs1) \<Rightarrow> (Inl e, fs1, manifest)
      | (Inr u, fs1) \<Rightarrow>
          (case scan_files H cfg manifest fs1 of
             Inl e \<Rightarrow> (Inl e, fs1, manifest)
           | Inr files \<Rightarrow>
               (case inventory_loop (mods manifest) files [] of
                  (statuses, remaining_files) \<Rightarrow>
                    (Inr \<lparr>entries = statuses, extras = map snd remaining_files\<rparr>, fs1, manifest))))"

subsection \<open>The manifest store\<close>

text \<open>
  \<^verbatim>\<open>model_dump_json\<close> and \<^verbatim>\<open>json.loads\<close> followed by \<^verbatim>\<open>model_validate\<close> belong to pydantic:
  they are the parameters \<open>dump\<close> and \<open>parse\<close>.
\<close>

definition digit_char :: "nat \<Rightarrow> char" where
  "digit_char n = char_of (48 + n)"

function str_nat :: "nat \<Rightarrow> string" where
  "str_nat n = (if n < 10 then [digit_char n] else str_nat (n div 10) @ [digit_char (n mod 10)])"
  by pat_completeness auto
termination
  by (relation "measure (\<lambda>n. n)") auto

definition str_int :: "int \<Rightarrow> string" where
  "str_int i = (if i < 0 then CHR ''-'' # str_nat (nat (- i)) else str_nat (nat i))"

definition load_manifest :: "(string \<Rightarrow> ModManifest option) \<Rightarrow> MscConfig \<Rightarrow> fs \<Rightarrow> error + ModManifest" where
  "load_manifest parse cfg fs =
     (case node_at fs (manifest_path cfg) of
        None \<Rightarrow> Inl (ManifestError (''Mods manifest not found. Run '' @ [CHR 0x27] @ ''msc mods init'' @ [CHR 0x27] @ '' first.''))
      | Some Dir \<Rightarrow> Inl (OSError ''IsADirectoryError'')
      | Some (File c) \<Rightarrow>
          (case parse c of
             None \<Rightarrow> Inl ValueError
           | Some manifest \<Rightarrow>
               if schema_version manifest \<noteq> SUPPORTED_SCHEMA_VERSION
               then Inl (ManifestError (''Unsupported manifest schema version '' @ str_int (schema_version manifest) @ ''.''))
               else Inr manifest))"

definition save_manifest :: "(ModManifest \<Rightarrow> string) \<Rightarrow> MscConfig \<Rightarrow> ModManifest \<Rightarrow> fs \<Rightarrow> (error + unit) \<times> fs" where
  "save_manifest dump cfg manifest fs =
     (case mkdir_parents (butlast (manifest_path cfg)) fs of
        Inl e \<Rightarrow> (Inl e, fs)
      | Inr fs1 \<Rightarrow>
          (case write_text (manifest_path cfg) (dump manifest) fs1 of
             Inl e \<Rightarrow> (Inl e, fs1)
           | Inr fs2 \<Rightarrow> (Inr (), fs2)))"

subsection \<open>Enable and disable\<close>

text \<open>
  \<^verbatim>\<open>manifest.find\<close> returns the first entry with the id, and \<^verbatim>\<open>entry.enabled = enabled\<close>
  assigns to that object inside \<^verbatim>\<open>manifest.mods\<close>.
\<close>

fun set_entry_enabled :: "string \<Rightarrow> bool \<Rightarrow> ModEntry list \<Rightarrow> ModEntry list" where
  "set_entry_enabled mod_id b [] = []"
| "set_entry_enabled mod_id b (e # es) =
     (if entry_id e = mod_id then e\<lparr>enabled := b\<rparr> # es else e # set_entry_enabled mod_id b es)"

definition move_entry_file :: "bool \<Rightarrow> path \<Rightarrow> path \<Rightarrow> fs \<Rightarrow> (error + unit) \<times> fs" where
  "move_entry_file move_files src_path dst_path fs =
     (if move_files
      then (case os_exists fs src_path of
              Inl e \<Rightarrow> (Inl e, fs)
            | Inr False \<Rightarrow> (Inr (), fs)
            | Inr True \<Rightarrow>
                (case makedirs (butlast dst_path) fs of
                   (Inl e, fs1) \<Rightarrow> (Inl e, fs1)
                 | (Inr u, fs1) \<Rightarrow>
                     (case shutil_move src_path dst_path fs1 of
                        Inl e \<Rightarrow> (Inl e, fs1)
                      | Inr fs2 \<Rightarrow> (Inr (), fs2))))
      else (Inr (), fs))"

definition set_enabled :: "(ModManifest \<Rightarrow> string) \<Rightarrow> MscConfig \<Rightarrow> ModManifest \<Rightarrow> string \<Rightarrow> bool \<Rightarrow> bool \<Rightarrow> fs \<Rightarrow>
    (error + ModEntry) \<times> fs \<times> ModManifest" where
  "set_enabled dump cfg manifest mod_id en move_files fs =
     (case ensure_directories cfg (Some manifest) fs of
        (Inl e, fs1) \<Rightarrow> (Inl e, fs1, manifest)
      | (Inr u, fs1) \<Rightarrow>
          (case find manifest mod_id of
             Inl e \<Rightarrow> (Inl e, fs1, manifest)
           | Inr ent \<Rightarrow>
               if enabled ent = en then (Inr ent, fs1, manifest)
               else
                 (let src_dir = (if en then disabled_dir cfg (Some manifest) else mods_dir cfg (Some manifest));
                      dst_dir = (if en then mods_dir cfg (Some manifest) else disabled_dir cfg (Some manifest));
                      src_path = joinpath src_dir (filename ent);
                      dst_path = joinpath dst_dir (filename ent)
                  in case move_entry_file move_files src_path dst_path fs1 of
                       (Inl e, fs2) \<Rightarrow> (Inl e, fs2, manifest)
                     | (Inr u, fs2) \<Rightarrow>
                         (let manifest' = manifest\<lparr>mods := set_entry_enabled mod_id en (mods manifest)\<rparr> in
                          case save_manifest dump cfg manifest' fs2 of
                            (Inl e, fs3) \<Rightarrow> (Inl e, fs3, manifest')
                          | (Inr u, fs3) \<Rightarrow> (Inr (ent\<lparr>enabled := en\<rparr>), fs3, manifest')))))"

subsection \<open>Remove and purge\<close>

fun unlink_existing :: "path list \<Rightarrow> fs \<Rightarrow> path list \<Rightarrow> (error + path list) \<times> fs" where
  "unlink_existing [] fs deleted_files = (Inr deleted_files, fs)"
| "unlink_existing (p # ps) fs deleted_files =
     (case os_exists fs p of
        Inl e \<Rightarrow> (Inl e, fs)
      | Inr True \<Rightarrow>
          (case os_unlink p fs of
             Inl e \<Rightarrow> (Inl e, fs)
           | Inr fs1 \<Rightarrow> unlink_existing ps fs1 (deleted_files @ [p]))
      | Inr False \<Rightarrow> unlink_existing ps fs deleted_files)"

definition remove_mod :: "(ModManifest \<Rightarrow> string) \<Rightarrow> MscConfig \<Rightarrow> ModManifest \<Rightarrow> string \<Rightarrow> bool \<Rightarrow> fs \<Rightarrow>
    (error + ModEntry \<times> path list) \<times> fs \<times> ModManifest" where
  "remove_mod dump cfg manifest mod_id remove_files fs =
     (case ensure_directories cfg (Some manifest) fs of
        (Inl e, fs1) \<Rightarrow> (Inl e, fs1, manifest)
      | (Inr u, fs1) \<Rightarrow>
          (case find manifest mod_id of
             Inl e \<Rightarrow> (Inl e, fs1, manifest)
           | Inr ent \<Rightarrow>
               (case (if remove_files
                      then unlink_existing
                             [joinpath (mods_dir cfg (Some manifest)) (filename ent),
                              joinpath (disabled_dir cfg (Some manifest)) (filename ent)] fs1 []
                      else (Inr [], fs1)) of
                  (Inl e, fs2) \<Rightarrow> (Inl e, fs2, manifest)
                | (Inr deleted_files, fs2) \<Rightarrow>
                    (case remove manifest mod_id of
                       (Inl e, manifest') \<Rightarrow> (Inl e, fs2, manifest')
                     | (Inr u, manifest') \<Rightarrow>
                         (case save_manifest dump cfg manifest' fs2 of
                            (Inl e, fs3) \<Rightarrow> (Inl e, fs3, manifest')
                          | (Inr u, fs3) \<Rightarrow> (Inr (ent, deleted_files), fs3, manifest'))))))"

text \<open>The loop of \<^verbatim>\<open>purge_mods\<close> runs over a copy of the entry list taken before it starts.\<close>

fun purge_loop :: "(ModManifest \<Rightarrow> string) \<Rightarrow> MscConfig \<Rightarrow> bool \<Rightarrow> ModEntry list \<Rightarrow> nat \<Rightarrow> path list \<Rightarrow>
    fs \<Rightarrow> ModManifest \<Rightarrow> (error + nat \<times> path list) \<times> fs \<times> ModManifest" where
  "purge_loop dump cfg remove_files [] removed_count deleted fs manifest =
     (Inr (removed_count, deleted), fs, manifest)"
| "purge_loop dump cfg remove_files (e # es) removed_count deleted fs manifest =
     (case remove_mod dump cfg manifest (entry_id e) remove_files fs of
        (Inl err, fs1, manifest1) \<Rightarrow> (Inl err, fs1, manifest1)
      | (Inr (ent, removed_paths), fs1, manifest1) \<Rightarrow>
          purge_loop dump cfg remove_files es (removed_count + 1) (deleted @ removed_paths) fs1 manifest1)"

definition purge_mods :: "(ModManifest \<Rightarrow> string) \<Rightarrow> MscConfig \<Rightarrow> ModManifest \<Rightarrow> bool \<Rightarrow> fs \<Rightarrow>
    (error + nat \<times> path list) \<times> fs \<times> ModManifest" where
  "purge_mods dump cfg manifest remove_files fs =
     (case ensure_directories cfg (Some manifest) fs of
        (Inl e, fs1) \<Rightarrow> (Inl e, fs1, manifest)
      | (Inr u, fs1) \<Rightarrow> purge_loop dump cfg remove_files (mods manifest) 0 [] fs1 manifest)"

subsection \<open>Helpers of init and add\<close>

text \<open>
  \<^verbatim>\<open>Path(filename)\<close> drops empty and \<^verbatim>\<open>.\<close> components, so \<^verbatim>\<open>Path(filename).stem\<close> is the
  stem of the last remaining component.
\<close>

definition pure_name :: "string \<Rightarrow> string" where
  "pure_name s =
     (case filter (\<lambda>c. c \<noteq> [] \<and> c \<noteq> ''.'') (split_on (CHR ''/'') s) of
        [] \<Rightarrow> []
      | c # cs \<Rightarrow> last (c # cs))"

text \<open>
  \<^verbatim>\<open>re.sub(r"[^a-zA-Z0-9]+", "-", stem)\<close>: the flag says whether the run of other characters
  that is being replaced has already produced its hyphen.
\<close>

fun sub_runs :: "bool \<Rightarrow> string \<Rightarrow> string" where
  "sub_runs in_run [] = []"
| "sub_runs in_run (c # cs) =
     (if is_alnum c then c # sub_runs False cs
      else if in_run then sub_runs True cs
      else CHR ''-'' # sub_runs True cs)"

definition strip_where :: "(char \<Rightarrow> bool) \<Rightarrow> string \<Rightarrow> string" where
  "strip_where P s = rev (dropWhile P (rev (dropWhile P s)))"

definition derive_mod_id :: "string \<Rightarrow> string" where
  "derive_mod_id fname =
     (let stem = path_stem (pure_name fname);
          slug = lower (strip_where (\<lambda>c. c = CHR ''-'') (sub_runs False stem))
      in if slug = [] then ''mod'' else slug)"

text \<open>\<^verbatim>\<open>str.title\<close>: a letter is upper-cased unless the character before it is a letter.\<close>

fun title_from :: "bool \<Rightarrow> string \<Rightarrow> string" where
  "title_from previous_is_cased [] = []"
| "title_from previous_is_cased (c # cs) =
     (if is_upper c \<or> is_lower c
      then (if previous_is_cased then lower_char c else upper_char c) # title_from True cs
      else c # title_from False cs)"

definition humanize_name :: "string \<Rightarrow> string" where
  "humanize_name mod_id =
     title_from False (map (\<lambda>c. if c = CHR ''-'' \<or> c = CHR ''_'' then CHR '' '' else c) mod_id)"

definition is_space :: "char \<Rightarrow> bool" where
  "is_space c = ((of_char c :: nat) \<in> {9, 10, 11, 12, 13, 28, 29, 30, 31, 32})"

definition loader_from_config :: "MscConfig \<Rightarrow> string option" where
  "loader_from_config cfg =
     (if server_type cfg = [] then None
      else (let key = lower (strip_where is_space (server_type cfg)) in
            case map_of
                   [(''fabric'', ''fabric''), (''quilt'', ''quilt''), (''forge'', ''forge''),
                    (''neoforge'', ''neoforge''), (''paper'', ''paper''), (''purpur'', ''paper''),
                    (''spigot'', ''paper''), (''vanilla'', ''vanilla'')] key of
              Some v \<Rightarrow> Some v
            | None \<Rightarrow> if key \<noteq> [] then Some key else None))"

definition startswith :: "string \<Rightarrow> string \<Rightarrow> bool" where
  "startswith s pre = (take (length pre) s = pre)"

text \<open>
  \<^verbatim>\<open>Path(source).expanduser()\<close> depends on the home and working directories of the process:
  \<open>user_path\<close> is the parameter that turns such a string into a path.
\<close>

definition infer_source_type :: "(string \<Rightarrow> path) \<Rightarrow> fs \<Rightarrow> string \<Rightarrow> string" where
  "infer_source_type user_path fs src =
     (let lowered = lower src in
      if startswith lowered ''modrinth:'' \<or> startswith lowered ''mr:'' then ''modrinth''
      else if startswith lowered ''curseforge:'' \<or> startswith lowered ''cf:'' then ''curseforge''
      else if startswith src ''http://'' \<or> startswith src ''https://'' then ''url''
      else if exists fs (user_path src) then ''local''
      else ''custom'')"

text \<open>\<^verbatim>\<open>s.split(c, 1)\<close>: the part before the first \<open>c\<close>, and the part after it when there is one.\<close>

definition split_once :: "char \<Rightarrow> string \<Rightarrow> string \<times> string option" where
  "split_once c s =
     (if c \<in> set s
      then (takeWhile (\<lambda>x. x \<noteq> c) s, Some (tl (dropWhile (\<lambda>x. x \<noteq> c) s)))
      else (s, None))"

definition normalize_source_identifier :: "string \<Rightarrow> string \<Rightarrow> string \<times> string option" where
  "normalize_source_identifier src source_type =
     (let lowered = lower src;
          prefixes = (if source_type = ''modrinth'' then [''modrinth:'', ''mr:'']
                      else if source_type = ''curseforge'' then [''curseforge:'', ''cf:'']
                      else []);
          target = (if list_ex (startswith lowered) prefixes
                    then (case snd (split_once (CHR '':'') src) of Some t \<Rightarrow> t | None \<Rightarrow> src)
                    else src)
      in if (source_type = ''modrinth'' \<or> source_type = ''curseforge'') \<and> CHR ''@'' \<in> set target
         then split_once (CHR ''@'') target
         else (target, None))"

definition SOURCE_TYPES :: "string list" where
  "SOURCE_TYPES = [''local'', ''url'', ''modrinth'', ''curseforge'', ''custom'']"

subsection \<open>The compatibility check\<close>

text \<open>
  The argument of \<^verbatim>\<open>_normalize_version_list\<close> is a list of strings or one string, or \<^verbatim>\<open>None\<close>.
\<close>

definition normalize_version_list :: "(string list + string) option \<Rightarrow> string list" where
  "normalize_version_list v =
     (case v of
        None \<Rightarrow> []
      | Some (Inr s) \<Rightarrow> if s = [] then [] else [s]
      | Some (Inl xs) \<Rightarrow> filter (\<lambda>i. i \<noteq> []) xs)"

definition assert_version_compatibility :: "string \<Rightarrow> string option \<Rightarrow> string list \<Rightarrow> string option \<Rightarrow>
    string option \<Rightarrow> error + unit" where
  "assert_version_compatibility mod_identifier resolved_loader resolved_mc_versions
       preferred_loader preferred_mc_version =
     (case (case (preferred_loader, resolved_loader) of
              (Some p, Some r) \<Rightarrow>
                if p \<noteq> [] \<and> r \<noteq> [] \<and> lower p \<noteq> lower r
                then Inl (ManifestError
                       (mod_identifier @ '' targets loader '' @ [CHR 0x27] @ r @ [CHR 0x27] @
                        '' which does not match the server loader '' @ [CHR 0x27] @ p @ [CHR 0x27] @ ''.''))
                else Inr ()
            | _ \<Rightarrow> Inr ()) of
        Inl e \<Rightarrow> Inl e
      | Inr u \<Rightarrow>
          (case preferred_mc_version of
             None \<Rightarrow> Inr ()
           | Some v \<Rightarrow>
               if v \<noteq> [] \<and> resolved_mc_versions \<noteq> [] \<and>
                  lower v \<notin> set (map lower resolved_mc_versions)
               then Inl (ManifestError
                      (mod_identifier @ '' is tagged for Minecraft '' @
                       join '', '' resolved_mc_versions @ '' but the server is '' @ v @ ''.''))
               else Inr ()))"

subsection \<open>Init and adoption\<close>

text \<open>
  \<^verbatim>\<open>_now_iso\<close> reads the clock: \<open>now k\<close> is the parameter for the reading number \<open>k\<close> of an
  operation. \<^verbatim>\<open>str(path)\<close> joins the components with slashes.
\<close>

definition path_str :: "path \<Rightarrow> string" where
  "path_str p = (if p = [] then ''/'' else concat (map (\<lambda>c. CHR ''/'' # c) p))"

definition adopted_entry :: "(string \<Rightarrow> string) \<Rightarrow> string \<Rightarrow> ModManifest \<Rightarrow> fs \<Rightarrow> path \<Rightarrow> ModEntry" where
  "adopted_entry H stamp manifest fs file =
     \<lparr>entry_id = derive_mod_id (path_name file),
      entry_name = Some (path_stem (path_name file)),
      side = ''server'',
      enabled = True,
      filename = path_name file,
      source = \<lparr>ms_type = ''local'', ms_path = Some (path_str file), ms_url = None,
                ms_project_id = None, ms_version_id = None, ms_slug = None,
                ms_download_url = None, ms_notes = None\<rparr>,
      version = None,
      mc_version = m_minecraft_version manifest,
      loader = m_loader manifest,
      installed_at = Some stamp,
      hashes = Some \<lparr>sha256 = Some (H (read_bytes fs file)), sha512 = None, sha1 = None, md5 = None\<rparr>,
      entry_notes = None\<rparr>"

fun adopt_loop :: "(string \<Rightarrow> string) \<Rightarrow> (nat \<Rightarrow> string) \<Rightarrow> fs \<Rightarrow> path list \<Rightarrow> nat \<Rightarrow> ModManifest \<Rightarrow>
    ModEntry list \<Rightarrow> ModEntry list \<times> ModManifest" where
  "adopt_loop H now fs [] k manifest adopted = (adopted, manifest)"
| "adopt_loop H now fs (file # rest) k manifest adopted =
     (case add manifest (adopted_entry H (now k) manifest fs file) of
        Inr manifest' \<Rightarrow>
          adopt_loop H now fs rest (k + 1) manifest' (adopted @ [adopted_entry H (now k) manifest fs file])
      | Inl e \<Rightarrow> adopt_loop H now fs rest (k + 1) manifest adopted)"

definition adopt_existing_mods :: "(string \<Rightarrow> string) \<Rightarrow> (nat \<Rightarrow> string) \<Rightarrow> MscConfig \<Rightarrow> ModManifest \<Rightarrow> fs \<Rightarrow>
    error + ModEntry list \<times> ModManifest" where
  "adopt_existing_mods H now cfg manifest fs =
     (case iter_mod_files fs (mods_dir cfg (Some manifest)) of
        Inl e \<Rightarrow> Inl e
      | Inr files \<Rightarrow> Inr (adopt_loop H now fs files 0 manifest []))"

definition init_manifest :: "(string \<Rightarrow> string) \<Rightarrow> (ModManifest \<Rightarrow> string) \<Rightarrow> (nat \<Rightarrow> string) \<Rightarrow> MscConfig \<Rightarrow>
    bool \<Rightarrow> bool \<Rightarrow> fs \<Rightarrow> (error + ModManifest \<times> nat) \<times> fs" where
  "init_manifest H dump now cfg force adopt_existing fs =
     (if exists fs (manifest_path cfg) \<and> \<not> force
      then (Inl (ManifestError ''Mods manifest already exists. Use --force to overwrite.''), fs)
      else
        (let manifest = \<lparr>schema_version = SUPPORTED_SCHEMA_VERSION,
                         m_loader = (if server_type cfg \<noteq> [] then Some (lower (server_type cfg)) else None),
                         m_minecraft_version = Some (minecraft_version cfg),
                         m_mods_dir = DEFAULT_MODS_DIR,
                         mods = []\<rparr>
         in case ensure_directories cfg (Some manifest) fs of
              (Inl e, fs1) \<Rightarrow> (Inl e, fs1)
            | (Inr u, fs1) \<Rightarrow>
                (case (if adopt_existing then adopt_existing_mods H now cfg manifest fs1
                       else Inr ([], manifest)) of
                   Inl e \<Rightarrow> (Inl e, fs1)
                 | Inr (adopted, manifest') \<Rightarrow>
                     (case save_manifest dump cfg manifest' fs1 of
                        (Inl e, fs2) \<Rightarrow> (Inl e, fs2)
                      | (Inr u, fs2) \<Rightarrow> (Inr (manifest', length adopted), fs2)))))"

subsection \<open>Add\<close>

record ResolvedMod =
  r_filename :: string
  r_source :: ModSource
  r_hashes :: "ModHashes option"
  r_mod_id :: "string option"
  r_name :: "string option"
  r_version :: "string option"
  r_loader :: "string option"
  r_mc_version :: "string option"
  r_mc_versions :: "string list option"

record SourceRequest =
  req_cfg :: MscConfig
  req_manifest :: ModManifest
  req_source :: string
  req_mods_directory :: path
  req_filename_override :: "string option"
  req_suggested_mod_id :: "string option"
  req_suggested_name :: "string option"
  req_preferred_loader :: "string option"
  req_preferred_mc_version :: "string option"
  req_version_hint :: "string option"
  req_project_id :: "string option"

text \<open>
  A resolver copies or downloads the artifact and returns what it resolved. The table
  \<^verbatim>\<open>_SOURCE_RESOLVERS\<close> is the parameter \<open>resolvers\<close>: the module registers the local, URL,
  Modrinth and CurseForge resolvers in it, three of which talk to the network.
\<close>

type_synonym resolver = "SourceRequest \<Rightarrow> fs \<Rightarrow> (error + ResolvedMod) \<times> fs"

definition get_source_resolver :: "(string \<Rightarrow> resolver option) \<Rightarrow> string \<Rightarrow> error + resolver" where
  "get_source_resolver resolvers source_type =
     (case resolvers source_type of
        Some r \<Rightarrow> Inr r
      | None \<Rightarrow> Inl (ManifestError (''Source type '' @ [CHR 0x27] @ source_type @ [CHR 0x27] @ '' is not yet supported.'')))"

text \<open>
  \<^verbatim>\<open>resolved_versions\<close> of \<^verbatim>\<open>add_mod\<close>: the list of supported versions when it is not
  empty, else the single version, normalised.
\<close>

definition resolved_versions :: "ResolvedMod \<Rightarrow> string list" where
  "resolved_versions resolved =
     normalize_version_list
       (case r_mc_versions resolved of
          Some (v # vs) \<Rightarrow> Some (Inl (v # vs))
        | _ \<Rightarrow> map_option Inr (r_mc_version resolved))"

definition or_default :: "string option \<Rightarrow> string \<Rightarrow> string" where
  "or_default a d = (case a of None \<Rightarrow> d | Some s \<Rightarrow> if s = [] then d else s)"

text \<open>
  The branch on \<^verbatim>\<open>manifest_only\<close> in \<^verbatim>\<open>add_mod\<close>: both arms assign the same eight variables,
  collected here in a \<open>ResolvedMod\<close>. In the first arm the filename override is a non-empty
  string, since \<^verbatim>\<open>add_mod\<close> has already refused the other case.
\<close>

definition resolve_for_add :: "(string \<Rightarrow> resolver option) \<Rightarrow> MscConfig \<Rightarrow> ModManifest \<Rightarrow> bool \<Rightarrow> string \<Rightarrow>
    string \<Rightarrow> string option \<Rightarrow> string option \<Rightarrow> string option \<Rightarrow> string option \<Rightarrow> string option \<Rightarrow>
    string option \<Rightarrow> string option \<Rightarrow> fs \<Rightarrow> (error + ResolvedMod) \<times> fs" where
  "resolve_for_add resolvers cfg manifest manifest_only inferred_source_type normalized_source
       filename_override mod_id nm preferred_loader preferred_mc_version version_hint project_id fs =
     (if manifest_only
      then (Inr \<lparr>r_filename = (case filename_override of Some f \<Rightarrow> f | None \<Rightarrow> []),
                 r_source = \<lparr>ms_type = inferred_source_type, ms_path = None, ms_url = None,
                             ms_project_id = None, ms_version_id = None, ms_slug = None,
                             ms_download_url = None, ms_notes = Some ''Manifest entry only''\<rparr>,
                 r_hashes = None, r_mod_id = None, r_name = None, r_version = None,
                 r_loader = None, r_mc_version = None, r_mc_versions = None\<rparr>, fs)
      else
        (case get_source_resolver resolvers inferred_source_type of
           Inl e \<Rightarrow> (Inl e, fs)
         | Inr resolve \<Rightarrow>
             (case resolve
                     \<lparr>req_cfg = cfg, req_manifest = manifest, req_source = normalized_source,
                      req_mods_directory = mods_dir cfg (Some manifest),
                      req_filename_override = filename_override,
                      req_suggested_mod_id = mod_id, req_suggested_name = nm,
                      req_preferred_loader = preferred_loader,
                      req_preferred_mc_version = preferred_mc_version,
                      req_version_hint = version_hint, req_project_id = project_id\<rparr> fs of
                (Inl e, fs1) \<Rightarrow> (Inl e, fs1)
              | (Inr resolved, fs1) \<Rightarrow>
                  (case assert_version_compatibility
                          (or_default (or_else mod_id (r_mod_id resolved)) normalized_source)
                          (r_loader resolved)
                          (resolved_versions resolved)
                          preferred_loader preferred_mc_version of
                     Inl e \<Rightarrow> (Inl e, fs1)
                   | Inr u \<Rightarrow> (Inr resolved, fs1)))))"

text \<open>The rest of \<^verbatim>\<open>add_mod\<close>, from the check of the target filename on.\<close>

definition add_resolved :: "(ModManifest \<Rightarrow> string) \<Rightarrow> (nat \<Rightarrow> string) \<Rightarrow> MscConfig \<Rightarrow> ModManifest \<Rightarrow>
    string option \<Rightarrow> string option \<Rightarrow> bool \<Rightarrow> string option \<Rightarrow> string option \<Rightarrow> ResolvedMod \<Rightarrow> fs \<Rightarrow>
    (error + ModEntry) \<times> fs \<times> ModManifest" where
  "add_resolved dump now cfg manifest mod_id nm en preferred_loader preferred_mc_version resolved fs =
     (if r_filename resolved = []
      then (Inl (ManifestError ''Unable to determine target filename for mod.''), fs, manifest)
      else
        (let derived_mod_id = derive_mod_id (r_filename resolved);
             mod_id' = or_default (or_else mod_id (r_mod_id resolved)) derived_mod_id
         in if list_ex (\<lambda>m. entry_id m = mod_id') (mods manifest)
            then (Inl (ManifestError (''Mod '' @ [CHR 0x27] @ mod_id' @ [CHR 0x27] @ '' already exists in manifest.'')),
                  fs, manifest)
            else
              (let ent = \<lparr>entry_id = mod_id',
                          entry_name = Some (or_default (or_else nm (r_name resolved)) (humanize_name mod_id')),
                          side = ''server'',
                          enabled = en,
                          filename = r_filename resolved,
                          source = r_source resolved,
                          version = r_version resolved,
                          mc_version = or_else (r_mc_version resolved) preferred_mc_version,
                          loader = or_else (r_loader resolved) preferred_loader,
                          installed_at = Some (now 0),
                          hashes = r_hashes resolved,
                          entry_notes = None\<rparr>
               in case add manifest ent of
                    Inl e \<Rightarrow> (Inl e, fs, manifest)
                  | Inr manifest' \<Rightarrow>
                      (case save_manifest dump cfg manifest' fs of
                         (Inl e, fs1) \<Rightarrow> (Inl e, fs1, manifest')
                       | (Inr u, fs1) \<Rightarrow> (Inr ent, fs1, manifest')))))"

definition add_mod :: "(string \<Rightarrow> resolver option) \<Rightarrow> (string \<Rightarrow> path) \<Rightarrow> (ModManifest \<Rightarrow> string) \<Rightarrow>
    (nat \<Rightarrow> string) \<Rightarrow> MscConfig \<Rightarrow> string \<Rightarrow> ModManifest \<Rightarrow> string option \<Rightarrow> string option \<Rightarrow> bool \<Rightarrow>
    string option \<Rightarrow> bool \<Rightarrow> string option \<Rightarrow> string option \<Rightarrow> string option \<Rightarrow> string option \<Rightarrow>
    string option \<Rightarrow> fs \<Rightarrow> (error + ModEntry) \<times> fs \<times> ModManifest" where
  "add_mod resolvers user_path dump now cfg src manifest mod_id nm en source_type manifest_only
       filename_override loader_hint mc_version_hint version_hint project_id fs =
     (case ensure_directories cfg (Some manifest) fs of
        (Inl e, fs1) \<Rightarrow> (Inl e, fs1, manifest)
      | (Inr u, fs1) \<Rightarrow>
          if manifest_only \<and> \<not> truthy filename_override
          then (Inl (ManifestError ''--manifest-only requires --filename to be provided.''), fs1, manifest)
          else
            (let inferred_source_type =
                   (case source_type of None \<Rightarrow> infer_source_type user_path fs1 src | Some t \<Rightarrow> t)
             in if inferred_source_type \<notin> set SOURCE_TYPES
                then (Inl (ManifestError (''Unsupported source type '' @ [CHR 0x27] @ inferred_source_type @ [CHR 0x27] @ ''.'')),
                      fs1, manifest)
                else
                  (let normalized_source = fst (normalize_source_identifier src inferred_source_type);
                       inline_version = snd (normalize_source_identifier src inferred_source_type);
                       version_hint' = (if version_hint = None \<and> truthy inline_version
                                        then inline_version else version_hint);
                       default_loader = or_else (m_loader manifest) (loader_from_config cfg);
                       manifest1 = (if m_loader manifest = None \<and> truthy default_loader
                                    then manifest\<lparr>m_loader := default_loader\<rparr> else manifest);
                       default_mc_version =
                         or_else (m_minecraft_version manifest1) (Some (minecraft_version cfg));
                       manifest2 = (if m_minecraft_version manifest1 = None \<and> minecraft_version cfg \<noteq> []
                                    then manifest1\<lparr>m_minecraft_version := Some (minecraft_version cfg)\<rparr>
                                    else manifest1);
                       preferred_loader = or_else loader_hint default_loader;
                       preferred_mc_version = or_else mc_version_hint default_mc_version
                   in case resolve_for_add resolvers cfg manifest2 manifest_only inferred_source_type
                             normalized_source filename_override mod_id nm preferred_loader
                             preferred_mc_version version_hint' project_id fs1 of
                        (Inl e, fs2) \<Rightarrow> (Inl e, fs2, manifest2)
                      | (Inr resolved, fs2) \<Rightarrow>
                          add_resolved dump now cfg manifest2 mod_id nm en preferred_loader
                            preferred_mc_version resolved fs2)))"

subsection \<open>The reconciliation as the specification words it\<close>

text \<open>
  Step 1 of the reconciliation: a file name is looked for in the two directories, and the
  occurrence in the disabled directory is the one recorded when both hold it.
\<close>

definition observed_file :: "(string \<Rightarrow> string) \<Rightarrow> fs \<Rightarrow> MscConfig \<Rightarrow> ModManifest \<Rightarrow> string \<Rightarrow> ModFile option" where
  "observed_file H fs cfg m n =
     (if is_mod_file fs (disabled_dir cfg (Some m) @ [n])
      then Some \<lparr>f_filename = n, f_path = disabled_dir cfg (Some m) @ [n], f_location = ''mods-disabled'',
                 f_sha256 = Some (H (read_bytes fs (disabled_dir cfg (Some m) @ [n])))\<rparr>
      else if is_mod_file fs (mods_dir cfg (Some m) @ [n])
      then Some \<lparr>f_filename = n, f_path = mods_dir cfg (Some m) @ [n], f_location = ''mods'',
                 f_sha256 = Some (H (read_bytes fs (mods_dir cfg (Some m) @ [n])))\<rparr>
      else None)"

text \<open>
  Step 3 of the reconciliation: the status of an entry, from where its file name is found.
  Absence is looked at first, then the directory, then the digest; the entry records an
  expected sha256 when that field holds a non-empty string.
\<close>

definition spec_status :: "(string \<Rightarrow> string) \<Rightarrow> fs \<Rightarrow> MscConfig \<Rightarrow> ModManifest \<Rightarrow> ModEntry \<Rightarrow> string" where
  "spec_status H fs cfg m e =
     (case observed_file H fs cfg m (filename e) of
        None \<Rightarrow> ''missing''
      | Some f \<Rightarrow>
          if (enabled e \<and> f_location f \<noteq> ''mods'') \<or> (\<not> enabled e \<and> f_location f \<noteq> ''mods-disabled'')
          then ''moved''
          else if (case hashes e of
                     None \<Rightarrow> False
                   | Some h \<Rightarrow> truthy (sha256 h) \<and> sha256 h \<noteq> f_sha256 f)
          then ''hash-mismatch''
          else ''ok'')"

subsection \<open>The compatibility check as the specification words it\<close>



subsection \<open>Intermediate values of add\<close>

text \<open>
  What \<^verbatim>\<open>add_mod\<close> prefers: the hint, else the value of the manifest, else that of the
  configuration.
\<close>

definition preferred_loader_of :: "MscConfig \<Rightarrow> ModManifest \<Rightarrow> string option \<Rightarrow> string option" where
  "preferred_loader_of cfg m loader_hint =
     or_else loader_hint (or_else (m_loader m) (loader_from_config cfg))"

definition preferred_mc_version_of :: "MscConfig \<Rightarrow> ModManifest \<Rightarrow> string option \<Rightarrow> string option" where
  "preferred_mc_version_of cfg m mc_version_hint =
     or_else mc_version_hint (or_else (m_minecraft_version m) (Some (minecraft_version cfg)))"

text \<open>The manifest after \<^verbatim>\<open>add_mod\<close> has filled in a missing loader and Minecraft version.\<close>

definition with_defaults :: "MscConfig \<Rightarrow> ModManifest \<Rightarrow> ModManifest" where
  "with_defaults cfg m =
     (let m1 = (if m_loader m = None \<and> truthy (or_else (m_loader m) (loader_from_config cfg))
                then m\<lparr>m_loader := or_else (m_loader m) (loader_from_config cfg)\<rparr> else m)
      in if m_minecraft_version m1 = None \<and> minecraft_version cfg \<noteq> []
         then m1\<lparr>m_minecraft_version := Some (minecraft_version cfg)\<rparr> else m1)"


subsection \<open>Example states\<close>

text \<open>
  A server under \<^verbatim>\<open>/srv\<close> with the data directory \<^verbatim>\<open>/srv/data\<close>, some file systems and
  manifests on it, and simple stand-ins for the digest, the serialiser, the clock and the
  resolvers.
\<close>

definition ex_cfg :: MscConfig where
  "ex_cfg = \<lparr>data_dir = [''srv'', ''data''], server_type = ''FABRIC'', minecraft_version = ''1.21.1'',
             api_user_agent = ''msc-cli/dev'', curseforge_api_key = None\<rparr>"

definition ex_entry :: "string \<Rightarrow> string \<Rightarrow> bool \<Rightarrow> string option \<Rightarrow> ModEntry" where
  "ex_entry i f en h =
     \<lparr>entry_id = i, entry_name = None, side = ''server'', enabled = en, filename = f,
      source = \<lparr>ms_type = ''local'', ms_path = None, ms_url = None, ms_project_id = None,
                ms_version_id = None, ms_slug = None, ms_download_url = None, ms_notes = None\<rparr>,
      version = None, mc_version = None, loader = None, installed_at = None,
      hashes = (case h of None \<Rightarrow> None
                | Some x \<Rightarrow> Some \<lparr>sha256 = Some x, sha512 = None, sha1 = None, md5 = None\<rparr>),
      entry_notes = None\<rparr>"

definition ex_manifest :: "string \<Rightarrow> ModEntry list \<Rightarrow> ModManifest" where
  "ex_manifest d es = \<lparr>schema_version = 1, m_loader = Some ''fabric'',
     m_minecraft_version = Some ''1.21.1'', m_mods_dir = d, mods = es\<rparr>"

definition ex_digest :: "string \<Rightarrow> string" where
  "ex_digest c = ''sha:'' @ c"

definition ex_dump :: "ModManifest \<Rightarrow> string" where
  "ex_dump m = ''manifest in '' @ m_mods_dir m"

definition ex_now :: "nat \<Rightarrow> string" where
  "ex_now k = ''2026-01-01T00:00:00+00:00''"

definition ex_user_path :: "string \<Rightarrow> path" where
  "ex_user_path s = [''srv'', s]"

definition ex_resolved :: "string option \<Rightarrow> string list option \<Rightarrow> ResolvedMod" where
  "ex_resolved l vs =
     \<lparr>r_filename = ''sodium.jar'',
      r_source = \<lparr>ms_type = ''modrinth'', ms_path = None, ms_url = None, ms_project_id = None,
                  ms_version_id = None, ms_slug = Some ''sodium'', ms_download_url = None,
                  ms_notes = None\<rparr>,
      r_hashes = None, r_mod_id = Some ''sodium'', r_name = None, r_version = None,
      r_loader = l, r_mc_version = None, r_mc_versions = vs\<rparr>"

definition ex_resolvers :: "ResolvedMod \<Rightarrow> string \<Rightarrow> resolver option" where
  "ex_resolvers resolved t = (if t = ''modrinth'' then Some (\<lambda>req fs. (Inr resolved, fs)) else None)"

definition ex_fs_bare :: fs where
  "ex_fs_bare = [([''srv''], Dir), ([''srv'', ''data''], Dir)]"

definition ex_fs_live :: fs where
  "ex_fs_live =
     [([''srv''], Dir), ([''srv'', ''data''], Dir),
      ([''srv'', ''data'', ''mods''], Dir), ([''srv'', ''data'', ''mods-disabled''], Dir),
      ([''srv'', ''data'', ''mods'', ''.mscmods.json''], File ''old'')]"

definition ex_fs_one :: fs where
  "ex_fs_one =
     [([''srv''], Dir), ([''srv'', ''data''], Dir),
      ([''srv'', ''data'', ''mods''], Dir), ([''srv'', ''data'', ''mods-disabled''], Dir),
      ([''srv'', ''data'', ''mods'', ''a.jar''], File ''one'')]"

definition ex_fs_both :: fs where
  "ex_fs_both =
     [([''srv''], Dir), ([''srv'', ''data''], Dir),
      ([''srv'', ''data'', ''mods''], Dir), ([''srv'', ''data'', ''mods-disabled''], Dir),
      ([''srv'', ''data'', ''mods'', ''a.jar''], File ''one''),
      ([''srv'', ''data'', ''mods-disabled'', ''a.jar''], File ''two'')]"

definition ex_twins :: ModManifest where
  "ex_twins = ex_manifest ''mods'' [ex_entry ''first'' ''a.jar'' True None, ex_entry ''second'' ''a.jar'' True None]"

definition ex_solo :: ModManifest where
  "ex_solo = ex_manifest ''mods'' [ex_entry ''sodium'' ''sodium.jar'' True None]"



section \<open>Properties\<close>

subsection \<open>Creating directories\<close>

lemma mkdir_rev_keeps:
  "mkdir_rev rp fs = Inr fs' \<Longrightarrow> map_of fs q = Some n \<Longrightarrow> map_of fs' q = Some n"
proof (induction rp arbitrary: fs')
  case Nil
  then show ?case by simp
next
  case (Cons c rp)
  then show ?case
    by (auto simp: update_conv' split: option.splits node.splits sum.splits)
qed

lemma mkdir_rev_no_new_file:
  "mkdir_rev rp fs = Inr fs' \<Longrightarrow> map_of fs' q = Some (File c) \<Longrightarrow> map_of fs q = Some (File c)"
proof (induction rp arbitrary: fs')
  case Nil
  then show ?case by simp
next
  case (Cons a rp)
  then show ?case
    by (auto simp: update_conv' split: option.splits node.splits sum.splits if_splits)
qed

lemma mkdir_rev_is_dir:
  "mkdir_rev rp fs = Inr fs' \<Longrightarrow> rp \<noteq> [] \<Longrightarrow> map_of fs' (rev rp) = Some Dir"
  by (cases rp) (auto simp: update_conv' split: option.splits node.splits sum.splits)


lemma mkdir_rev_same:
  "map_of fs (rev rp) = Some Dir \<Longrightarrow> mkdir_rev rp fs = Inr fs"
  by (cases rp) auto

lemma node_at_mkdir_keeps:
  "mkdir_parents p fs = Inr fs' \<Longrightarrow> node_at fs q = Some n \<Longrightarrow> node_at fs' q = Some n"
  by (auto simp: mkdir_parents_def node_at_def dest: mkdir_rev_keeps split: if_splits)

lemma node_at_mkdir_no_new_file:
  "mkdir_parents p fs = Inr fs' \<Longrightarrow> node_at fs' q = Some (File c) \<Longrightarrow> node_at fs q = Some (File c)"
  by (auto simp: mkdir_parents_def node_at_def dest: mkdir_rev_no_new_file split: if_splits)

lemma node_at_mkdir_is_dir:
  "mkdir_parents p fs = Inr fs' \<Longrightarrow> node_at fs' p = Some Dir"
  using mkdir_rev_is_dir[of "rev p" fs fs'] by (auto simp: mkdir_parents_def node_at_def)


lemma mkdir_parents_same:
  "node_at fs p = Some Dir \<Longrightarrow> mkdir_parents p fs = Inr fs"
  using mkdir_rev_same[of fs "rev p"] by (cases "p = []") (auto simp: mkdir_parents_def node_at_def)

lemma ensure_keeps:
  "ensure_directories cfg mo fs = (r, fs') \<Longrightarrow> node_at fs q = Some n \<Longrightarrow> node_at fs' q = Some n"
  by (auto simp: ensure_directories_def split: sum.splits dest: node_at_mkdir_keeps)

lemma ensure_no_new_file:
  "ensure_directories cfg mo fs = (r, fs') \<Longrightarrow> node_at fs' q = Some (File c) \<Longrightarrow> node_at fs q = Some (File c)"
  by (auto simp: ensure_directories_def split: sum.splits dest: node_at_mkdir_no_new_file)

lemma ensure_dirs:
  assumes "ensure_directories cfg mo fs = (Inr u, fs')"
  shows "node_at fs' (mods_dir cfg mo) = Some Dir" and "node_at fs' (disabled_dir cfg mo) = Some Dir"
  using assms
  by (auto simp: ensure_directories_def split: sum.splits dest: node_at_mkdir_is_dir node_at_mkdir_keeps)


lemma ensure_same:
  "node_at fs (mods_dir cfg mo) = Some Dir \<Longrightarrow> node_at fs (disabled_dir cfg mo) = Some Dir \<Longrightarrow>
   ensure_directories cfg mo fs = (Inr (), fs)"
  by (simp add: ensure_directories_def mkdir_parents_same)

lemma ensure_file_iff:
  assumes "ensure_directories cfg mo fs = (r, fs')"
  shows "node_at fs' q = Some (File c) \<longleftrightarrow> node_at fs q = Some (File c)"
  using ensure_keeps[OF assms] ensure_no_new_file[OF assms] by blast

lemma is_file_ensure:
  assumes "ensure_directories cfg mo fs = (r, fs')"
  shows "is_file fs' q = is_file fs q"
proof (cases "\<exists>c. node_at fs q = Some (File c)")
  case True
  then obtain c where c: "node_at fs q = Some (File c)" by blast
  then have "node_at fs' q = Some (File c)" using ensure_file_iff[OF assms] by simp
  with c show ?thesis by (simp add: is_file_def)
next
  case False
  then have "\<not> is_file fs q" by (simp add: is_file_def split: option.splits node.splits)
  moreover have "\<not> is_file fs' q"
  proof
    assume "is_file fs' q"
    then obtain c where "node_at fs' q = Some (File c)"
      by (auto simp: is_file_def split: option.splits node.splits)
    then show False using False ensure_file_iff[OF assms] by simp
  qed
  ultimately show ?thesis by simp
qed

lemma is_mod_file_ensure:
  "ensure_directories cfg mo fs = (r, fs') \<Longrightarrow> is_mod_file fs' q = is_mod_file fs q"
  by (simp add: is_mod_file_def is_file_ensure)

lemma read_bytes_ensure:
  assumes "ensure_directories cfg mo fs = (r, fs')" "is_mod_file fs q"
  shows "read_bytes fs' q = read_bytes fs q"
proof -
  obtain c where c: "node_at fs q = Some (File c)"
    using assms(2) by (auto simp: is_mod_file_def is_file_def split: option.splits node.splits)
  then have "node_at fs' q = Some (File c)" using ensure_file_iff[OF assms(1)] by simp
  with c show ?thesis by (simp add: read_bytes_def)
qed

lemma in_iterdir:
  "p \<in> set (iterdir fs d) \<longleftrightarrow> p \<noteq> [] \<and> butlast p = d \<and> map_of fs p \<noteq> None"
  by (auto simp: iterdir_def map_of_eq_None_iff image_iff)

lemma in_iter_mod_files:
  "iter_mod_files fs d = Inr files \<Longrightarrow> node_at fs d = Some Dir \<Longrightarrow>
   p \<in> set files \<longleftrightarrow> p \<noteq> [] \<and> butlast p = d \<and> is_mod_file fs p"
  by (auto simp: iter_mod_files_def in_iterdir is_mod_file_def is_file_def node_at_def
      split: option.splits node.splits)

lemma scan_into_map_of:
  "\<forall>f \<in> set files. f \<noteq> [] \<and> butlast f = d \<Longrightarrow>
   map_of (scan_into H fs loc files acc) n =
     (if d @ [n] \<in> set files
      then Some \<lparr>f_filename = n, f_path = d @ [n], f_location = loc, f_sha256 = Some (H (read_bytes fs (d @ [n])))\<rparr>
      else map_of acc n)"
proof (induction files arbitrary: acc)
  case Nil
  then show ?case by simp
next
  case (Cons f files)
  have f: "f = d @ [path_name f]"
    using Cons.prems by (auto simp: path_name_def)
  have "\<forall>f \<in> set files. f \<noteq> [] \<and> butlast f = d" using Cons.prems by simp
  from Cons.IH[OF this] show ?case
    using f by (auto simp: update_conv')
qed

lemma scan_into_distinct:
  "distinct (map fst acc) \<Longrightarrow> distinct (map fst (scan_into H fs loc files acc))"
  by (induction files arbitrary: acc) (auto simp: distinct_update)

lemma scan_files_char:
  assumes "node_at fs (mods_dir cfg (Some m)) = Some Dir" "node_at fs (disabled_dir cfg (Some m)) = Some Dir"
  shows "\<exists>files. scan_files H cfg m fs = Inr files \<and> distinct (map fst files) \<and>
           (\<forall>n. map_of files n = observed_file H fs cfg m n)"
proof -
  obtain en where en: "iter_mod_files fs (mods_dir cfg (Some m)) = Inr en"
    using assms(1) by (simp add: iter_mod_files_def)
  obtain dis where dis: "iter_mod_files fs (disabled_dir cfg (Some m)) = Inr dis"
    using assms(2) by (simp add: iter_mod_files_def)
  have en_in: "\<And>p. p \<in> set en \<longleftrightarrow> p \<noteq> [] \<and> butlast p = mods_dir cfg (Some m) \<and> is_mod_file fs p"
    using in_iter_mod_files[OF en assms(1)] by simp
  have dis_in: "\<And>p. p \<in> set dis \<longleftrightarrow> p \<noteq> [] \<and> butlast p = disabled_dir cfg (Some m) \<and> is_mod_file fs p"
    using in_iter_mod_files[OF dis assms(2)] by simp
  let ?files = "scan_into H fs ''mods-disabled'' dis (scan_into H fs ''mods'' en [])"
  have 1: "scan_files H cfg m fs = Inr ?files" by (simp add: scan_files_def en dis)
  have 2: "distinct (map fst ?files)" by (simp add: scan_into_distinct)
  have 3: "map_of ?files n = observed_file H fs cfg m n" for n
    using scan_into_map_of[of dis "disabled_dir cfg (Some m)" H fs "''mods-disabled''" "scan_into H fs ''mods'' en []" n]
      scan_into_map_of[of en "mods_dir cfg (Some m)" H fs "''mods''" "[]" n]
    by (simp add: en_in dis_in observed_file_def)
  show ?thesis using 1 2 3 by blast
qed

lemma ex_suffix_jar: "path_suffix ''a.jar'' = ''.jar''"
  by (simp add: path_suffix_def rfind_dot_def)

subsection \<open>The scan\<close>

text \<open>
  C2: when one file name is a mod file both in the enabled and in the disabled directory,
  the mapping built by the scan holds, under that name, the file of the disabled directory:
  its path, the location \<^verbatim>\<open>mods-disabled\<close> and the digest of its content. The name is a
  key of the mapping only once.
\<close>

theorem scan_collision_disabled_wins:
  assumes "node_at fs (mods_dir cfg (Some m)) = Some Dir"
    and "node_at fs (disabled_dir cfg (Some m)) = Some Dir"
    and "is_mod_file fs (mods_dir cfg (Some m) @ [n])"
    and "is_mod_file fs (disabled_dir cfg (Some m) @ [n])"
  shows "\<exists>files. scan_files H cfg m fs = Inr files \<and>
           map_of files n =
             Some \<lparr>f_filename = n, f_path = disabled_dir cfg (Some m) @ [n],
                   f_location = ''mods-disabled'',
                   f_sha256 = Some (H (read_bytes fs (disabled_dir cfg (Some m) @ [n])))\<rparr> \<and>
           distinct (map fst files)"
proof -
  obtain files where f: "scan_files H cfg m fs = Inr files" "distinct (map fst files)"
    "\<And>k. map_of files k = observed_file H fs cfg m k"
    using scan_files_char[OF assms(1,2)] by blast
  have v: "map_of files n =
             Some \<lparr>f_filename = n, f_path = disabled_dir cfg (Some m) @ [n],
                   f_location = ''mods-disabled'',
                   f_sha256 = Some (H (read_bytes fs (disabled_dir cfg (Some m) @ [n])))\<rparr>"
    using f(3)[of n] assms(4) by (simp add: observed_file_def)
  with f(1,2) show ?thesis by blast
qed

theorem scan_collision_disabled_wins_witness:
  "is_mod_file ex_fs_both (mods_dir ex_cfg (Some (ex_manifest ''mods'' [])) @ [''a.jar'']) \<and>
   is_mod_file ex_fs_both (disabled_dir ex_cfg (Some (ex_manifest ''mods'' [])) @ [''a.jar'']) \<and>
   (\<exists>files. scan_files ex_digest ex_cfg (ex_manifest ''mods'' []) ex_fs_both = Inr files \<and>
      map_of files ''a.jar'' =
        Some \<lparr>f_filename = ''a.jar'', f_path = [''srv'', ''data'', ''mods-disabled'', ''a.jar''],
              f_location = ''mods-disabled'', f_sha256 = Some ''sha:two''\<rparr>)"
proof -
  have d: "mods_dir ex_cfg (Some (ex_manifest ''mods'' [])) = [''srv'', ''data'', ''mods'']"
    "disabled_dir ex_cfg (Some (ex_manifest ''mods'' [])) = [''srv'', ''data'', ''mods-disabled'']"
    by (simp_all add: mods_dir_def disabled_dir_def ex_cfg_def ex_manifest_def DEFAULT_DISABLED_DIR_SUFFIX_def)
  have h1: "node_at ex_fs_both (mods_dir ex_cfg (Some (ex_manifest ''mods'' []))) = Some Dir"
    and h2: "node_at ex_fs_both (disabled_dir ex_cfg (Some (ex_manifest ''mods'' []))) = Some Dir"
    by (simp_all add: d node_at_def ex_fs_both_def)
  have h3: "is_mod_file ex_fs_both (mods_dir ex_cfg (Some (ex_manifest ''mods'' [])) @ [''a.jar''])"
    and h4: "is_mod_file ex_fs_both (disabled_dir ex_cfg (Some (ex_manifest ''mods'' [])) @ [''a.jar''])"
    by (simp_all add: d is_mod_file_def is_file_def node_at_def ex_fs_both_def path_name_def ex_suffix_jar)
  have r: "read_bytes ex_fs_both [''srv'', ''data'', ''mods-disabled'', ''a.jar''] = ''two''"
    by (simp add: read_bytes_def node_at_def ex_fs_both_def)
  show ?thesis
    using h3 h4 scan_collision_disabled_wins[OF h1 h2 h3 h4, of ex_digest]
    by (auto simp: d r ex_digest_def)
qed

subsection \<open>The inventory loop\<close>

lemma inventory_loop_prefix:
  "fst (inventory_loop es rem st) = st @ fst (inventory_loop es rem [])"
proof (induction es arbitrary: rem st)
  case Nil
  then show ?case by simp
next
  case (Cons e es)
  show ?case
    using Cons.IH[of "AList.delete (filename e) rem" "st @ [entry_status e (map_of rem (filename e))]"]
      Cons.IH[of "AList.delete (filename e) rem" "[entry_status e (map_of rem (filename e))]"]
    by simp
qed

lemma inventory_loop_Cons:
  "fst (inventory_loop (e # es) rem []) =
     entry_status e (map_of rem (filename e)) # fst (inventory_loop es (AList.delete (filename e) rem) [])"
  using inventory_loop_prefix[of es "AList.delete (filename e) rem" "[entry_status e (map_of rem (filename e))]"]
  by simp

lemma inventory_loop_length: "length (fst (inventory_loop es rem [])) = length es"
  by (induction es arbitrary: rem) (simp_all add: inventory_loop_Cons del: inventory_loop.simps(2))

lemma inventory_loop_nth:
  "i < length es \<Longrightarrow>
   fst (inventory_loop es rem []) ! i =
     entry_status (es ! i)
       (if filename (es ! i) \<in> filename ` set (take i es) then None else map_of rem (filename (es ! i)))"
proof (induction es arbitrary: i rem)
  case Nil
  then show ?case by simp
next
  case (Cons e es)
  show ?case
  proof (cases i)
    case 0
    then show ?thesis by (simp add: inventory_loop_Cons del: inventory_loop.simps(2))
  next
    case (Suc j)
    then have j: "j < length es" using Cons.prems by simp
    show ?thesis
      using Cons.IH[OF j, of "AList.delete (filename e) rem"] Suc
      by (simp add: inventory_loop_Cons delete_conv' del: inventory_loop.simps(2))
  qed
qed

lemma inventory_loop_remaining:
  "map_of (snd (inventory_loop es rem st)) k = (if k \<in> filename ` set es then None else map_of rem k)"
  by (induction es arbitrary: rem st) (auto simp: delete_conv')

lemma inventory_loop_distinct:
  "distinct (map fst rem) \<Longrightarrow> distinct (map fst (snd (inventory_loop es rem st)))"
  by (induction es arbitrary: rem st) (auto simp: distinct_delete)

lemma status_cases:
  "status s = ''ok'' \<or> status s = ''missing'' \<or> status s = ''moved'' \<or> status s = ''hash-mismatch''"
  by (simp add: status_def)

lemma status_counts:
  "length (filter (\<lambda>e. status e = ''ok'') xs) + length (filter (\<lambda>e. status e = ''missing'') xs) +
   length (filter (\<lambda>e. status e = ''moved'') xs) + length (filter (\<lambda>e. status e = ''hash-mismatch'') xs) =
   length xs"
proof (induction xs)
  case Nil
  then show ?case by simp
next
  case (Cons x xs)
  consider "status x = ''ok''" | "status x = ''missing''" | "status x = ''moved''" | "status x = ''hash-mismatch''"
    using status_cases by blast
  then show ?case using Cons.IH by cases simp_all
qed

lemma status_absent: "status (entry_status e None) = ''missing''"
  by (simp add: status_def entry_status_def)

lemma status_observed:
  "status (entry_status e (observed_file H fs cfg m (filename e))) = spec_status H fs cfg m e"
proof (cases "observed_file H fs cfg m (filename e)")
  case None
  then show ?thesis by (simp add: spec_status_def status_absent)
next
  case (Some f)
  then have loc: "f_location f = ''mods'' \<or> f_location f = ''mods-disabled''"
    by (auto simp: observed_file_def split: if_splits)
  show ?thesis
  proof (cases "hashes e")
    case None
    with Some loc show ?thesis
      by (auto simp: spec_status_def status_def entry_status_def)
  next
    case (Some h)
    with \<open>observed_file H fs cfg m (filename e) = Some f\<close> loc show ?thesis
      by (auto simp: spec_status_def status_def entry_status_def)
  qed
qed

lemma observed_file_ensure:
  assumes "ensure_directories cfg mo fs = (r, fs')"
  shows "observed_file H fs' cfg m n = observed_file H fs cfg m n"
  using is_mod_file_ensure[OF assms] read_bytes_ensure[OF assms]
  by (simp add: observed_file_def)

lemma inventory_char:
  assumes "ensure_directories cfg (Some m) fs = (Inr u, fs1)"
  shows "\<exists>files. distinct (map fst files) \<and> (\<forall>n. map_of files n = observed_file H fs cfg m n) \<and>
           inventory H cfg m fs =
             (Inr \<lparr>entries = fst (inventory_loop (mods m) files []),
                   extras = map snd (snd (inventory_loop (mods m) files []))\<rparr>, fs1, m)"
proof -
  obtain files where f: "scan_files H cfg m fs1 = Inr files" "distinct (map fst files)"
    "\<And>k. map_of files k = observed_file H fs1 cfg m k"
    using scan_files_char[OF ensure_dirs[OF assms]] by blast
  have "\<And>k. map_of files k = observed_file H fs cfg m k"
    using f(3) observed_file_ensure[OF assms] by simp
  moreover have "inventory H cfg m fs =
             (Inr \<lparr>entries = fst (inventory_loop (mods m) files []),
                   extras = map snd (snd (inventory_loop (mods m) files []))\<rparr>, fs1, m)"
    using assms f(1) by (simp add: inventory_def split: prod.splits)
  ultimately show ?thesis using f(2) by blast
qed

lemma observed_file_name: "observed_file H fs cfg m n = Some f \<Longrightarrow> f_filename f = n"
  by (auto simp: observed_file_def split: if_splits)

lemma extras_char:
  assumes "distinct (map fst files)" and "\<And>n. map_of files n = observed_file H fs cfg m n"
  shows "distinct (map f_filename (map snd (snd (inventory_loop es files []))))"
    and "x \<in> set (map snd (snd (inventory_loop es files []))) \<longleftrightarrow>
           f_filename x \<notin> filename ` set es \<and> observed_file H fs cfg m (f_filename x) = Some x"
proof -
  let ?rem = "snd (inventory_loop es files [])"
  have d: "distinct (map fst ?rem)" using assms(1) by (rule inventory_loop_distinct)
  have m: "\<And>k. map_of ?rem k = (if k \<in> filename ` set es then None else observed_file H fs cfg m k)"
    by (simp add: inventory_loop_remaining assms(2))
  have key: "f_filename v = k" if "(k, v) \<in> set ?rem" for k v
  proof -
    have "map_of ?rem k = Some v" using that d by simp
    then show ?thesis using m[of k] by (auto split: if_splits dest: observed_file_name)
  qed
  have "\<forall>kv \<in> set ?rem. (f_filename \<circ> snd) kv = fst kv"
    using key by auto
  then have "map (f_filename \<circ> snd) ?rem = map fst ?rem"
    by (simp only: map_eq_conv)
  then show "distinct (map f_filename (map snd ?rem))" using d by (simp only: map_map)
  show "x \<in> set (map snd ?rem) \<longleftrightarrow>
           f_filename x \<notin> filename ` set es \<and> observed_file H fs cfg m (f_filename x) = Some x"
  proof
    assume "x \<in> set (map snd ?rem)"
    then obtain k where k: "(k, x) \<in> set ?rem" by auto
    then have "map_of ?rem k = Some x" using d by simp
    moreover have "f_filename x = k" using key[OF k] .
    ultimately show "f_filename x \<notin> filename ` set es \<and> observed_file H fs cfg m (f_filename x) = Some x"
      using m[of k] by (auto split: if_splits)
  next
    assume a: "f_filename x \<notin> filename ` set es \<and> observed_file H fs cfg m (f_filename x) = Some x"
    then have "map_of ?rem (f_filename x) = Some x" using m[of "f_filename x"] by simp
    then have "(f_filename x, x) \<in> set ?rem" by (rule map_of_SomeD)
    then show "x \<in> set (map snd ?rem)" by force
  qed
qed

lemma ex_dirs:
  "mods_dir ex_cfg (Some (ex_manifest ''mods'' es)) = [''srv'', ''data'', ''mods'']"
  "disabled_dir ex_cfg (Some (ex_manifest ''mods'' es)) = [''srv'', ''data'', ''mods-disabled'']"
  by (simp_all add: mods_dir_def disabled_dir_def ex_cfg_def ex_manifest_def DEFAULT_DISABLED_DIR_SUFFIX_def)

lemma ex_ensure_one:
  "ensure_directories ex_cfg (Some (ex_manifest ''mods'' es)) ex_fs_one = (Inr (), ex_fs_one)"
  by (rule ensure_same) (simp_all add: ex_dirs node_at_def ex_fs_one_def)

lemma ex_ensure_both:
  "ensure_directories ex_cfg (Some (ex_manifest ''mods'' es)) ex_fs_both = (Inr (), ex_fs_both)"
  by (rule ensure_same) (simp_all add: ex_dirs node_at_def ex_fs_both_def)

lemma ex_observed_one:
  "observed_file ex_digest ex_fs_one ex_cfg (ex_manifest ''mods'' es) ''a.jar'' =
     Some \<lparr>f_filename = ''a.jar'', f_path = [''srv'', ''data'', ''mods'', ''a.jar''],
           f_location = ''mods'', f_sha256 = Some ''sha:one''\<rparr>"
  by (simp add: observed_file_def ex_dirs is_mod_file_def is_file_def node_at_def ex_fs_one_def
      path_name_def ex_suffix_jar read_bytes_def ex_digest_def)

subsection \<open>Classification\<close>

text \<open>
  C1, as amended: inventory gives every entry one status. An entry whose file name is that
  of an earlier entry of the manifest is \<^verbatim>\<open>missing\<close>, whatever the disk holds, because the
  earlier entry has taken the file out of the mapping; every other entry has the status the
  specification describes: \<^verbatim>\<open>missing\<close> when the name is in neither directory, else \<^verbatim>\<open>moved\<close>
  when the directory contradicts the enabled flag, else \<^verbatim>\<open>hash-mismatch\<close> when a recorded
  sha256 differs from the digest of the file, else \<^verbatim>\<open>ok\<close>.
\<close>

theorem inventory_classification:
  assumes "fst (ensure_directories cfg (Some m) fs) = Inr ()" and "i < length (mods m)"
  shows "\<exists>ivt. fst (inventory H cfg m fs) = Inr ivt \<and>
           length (entries ivt) = length (mods m) \<and>
           entry (entries ivt ! i) = mods m ! i \<and>
           status (entries ivt ! i) =
             (if filename (mods m ! i) \<in> filename ` set (take i (mods m)) then ''missing''
              else spec_status H fs cfg m (mods m ! i))"
proof -
  obtain fs1 where e: "ensure_directories cfg (Some m) fs = (Inr (), fs1)"
    using assms(1) by (cases "ensure_directories cfg (Some m) fs") auto
  obtain files where f: "\<And>n. map_of files n = observed_file H fs cfg m n"
    "inventory H cfg m fs =
       (Inr \<lparr>entries = fst (inventory_loop (mods m) files []),
             extras = map snd (snd (inventory_loop (mods m) files []))\<rparr>, fs1, m)"
    using inventory_char[OF e, of H] by blast
  let ?ivt = "\<lparr>entries = fst (inventory_loop (mods m) files []),
             extras = map snd (snd (inventory_loop (mods m) files []))\<rparr>"
  have 1: "fst (inventory H cfg m fs) = Inr ?ivt" using f(2) by simp
  have 2: "length (entries ?ivt) = length (mods m)" by (simp add: inventory_loop_length)
  have n: "entries ?ivt ! i =
      entry_status (mods m ! i)
       (if filename (mods m ! i) \<in> filename ` set (take i (mods m)) then None
        else observed_file H fs cfg m (filename (mods m ! i)))"
    using inventory_loop_nth[OF assms(2), of files] f(1) by simp
  have 3: "entry (entries ?ivt ! i) = mods m ! i"
    unfolding n by (simp add: entry_status_def)
  have 4: "status (entries ?ivt ! i) =
             (if filename (mods m ! i) \<in> filename ` set (take i (mods m)) then ''missing''
              else spec_status H fs cfg m (mods m ! i))"
    unfolding n by (simp add: status_absent status_observed)
  show ?thesis using 1 2 3 4 by blast
qed

lemma ex_entry_sel:
  "filename (ex_entry i f en h) = f" "enabled (ex_entry i f en h) = en"
  "entry_id (ex_entry i f en h) = i" "hashes (ex_entry i f en None) = None"
  "hashes (ex_entry i f en (Some x)) = Some \<lparr>sha256 = Some x, sha512 = None, sha1 = None, md5 = None\<rparr>"
  by (simp_all add: ex_entry_def)

lemma ex_manifest_sel:
  "mods (ex_manifest d es) = es" "m_mods_dir (ex_manifest d es) = d"
  by (simp_all add: ex_manifest_def)

lemma ex_twins_mods:
  "mods ex_twins = [ex_entry ''first'' ''a.jar'' True None, ex_entry ''second'' ''a.jar'' True None]"
  by (simp add: ex_twins_def ex_manifest_sel)

lemma ex_observed_twins:
  "observed_file ex_digest ex_fs_one ex_cfg ex_twins ''a.jar'' =
     Some \<lparr>f_filename = ''a.jar'', f_path = [''srv'', ''data'', ''mods'', ''a.jar''],
           f_location = ''mods'', f_sha256 = Some ''sha:one''\<rparr>"
  by (simp add: ex_twins_def ex_observed_one)

lemma ex_spec_status_twins:
  "spec_status ex_digest ex_fs_one ex_cfg ex_twins (ex_entry i ''a.jar'' True None) = ''ok''"
  by (simp add: spec_status_def ex_entry_sel ex_observed_twins)

lemma ex_status_twins:
  "status (entry_status (ex_entry i ''a.jar'' True None)
     (observed_file ex_digest ex_fs_one ex_cfg ex_twins ''a.jar'')) = ''ok''"
  using status_observed[of "ex_entry i ''a.jar'' True None" ex_digest ex_fs_one ex_cfg ex_twins]
  by (simp add: ex_entry_sel ex_spec_status_twins)

theorem inventory_classification_witness:
  "fst (ensure_directories ex_cfg (Some ex_twins) ex_fs_one) = Inr () \<and>
   (\<exists>ivt. fst (inventory ex_digest ex_cfg ex_twins ex_fs_one) = Inr ivt \<and>
      status (entries ivt ! 1) = ''missing'')"
proof -
  have h: "fst (ensure_directories ex_cfg (Some ex_twins) ex_fs_one) = Inr ()"
    by (simp add: ex_twins_def ex_ensure_one)
  have l: "(1::nat) < length (mods ex_twins)"
    by (simp add: ex_twins_mods)
  show ?thesis
    using h inventory_classification[OF h l, of ex_digest]
    by (auto simp: ex_twins_mods ex_entry_sel)
qed

text \<open>
  C1 as stated fails for two enabled entries with one file name whose file is in the enabled
  directory: the source reports the second entry \<^verbatim>\<open>missing\<close>, where the claim has it \<^verbatim>\<open>ok\<close>.
\<close>

theorem later_twin_is_missing_counterexample:
  "\<not> isl (fst (inventory ex_digest ex_cfg ex_twins ex_fs_one)) \<and>
   map status (entries (projr (fst (inventory ex_digest ex_cfg ex_twins ex_fs_one)))) = [''ok'', ''missing''] \<and>
   map (spec_status ex_digest ex_fs_one ex_cfg ex_twins) (mods ex_twins) = [''ok'', ''ok'']"
proof -
  obtain files where f: "\<And>n. map_of files n = observed_file ex_digest ex_fs_one ex_cfg ex_twins n"
    "inventory ex_digest ex_cfg ex_twins ex_fs_one =
       (Inr \<lparr>entries = fst (inventory_loop (mods ex_twins) files []),
             extras = map snd (snd (inventory_loop (mods ex_twins) files []))\<rparr>, ex_fs_one, ex_twins)"
    using inventory_char[of ex_cfg ex_twins ex_fs_one "()" ex_fs_one ex_digest] ex_ensure_one
    by (auto simp: ex_twins_def)
  have 1: "map status (entries (projr (fst (inventory ex_digest ex_cfg ex_twins ex_fs_one)))) = [''ok'', ''missing'']"
    unfolding f(2) ex_twins_mods
    by (simp add: ex_entry_sel f(1) delete_conv' status_absent ex_status_twins)
  have 2: "map (spec_status ex_digest ex_fs_one ex_cfg ex_twins) (mods ex_twins) = [''ok'', ''ok'']"
    unfolding ex_twins_mods by (simp add: ex_spec_status_twins)
  have 3: "\<not> isl (fst (inventory ex_digest ex_cfg ex_twins ex_fs_one))"
    unfolding f(2) by simp
  show ?thesis using 1 2 3 by simp
qed

subsection \<open>Totals and extras\<close>

text \<open>
  C3, as amended: the four status counts of the summary add up to the number of entries,
  which is the total. The extras hold no file name twice, and a file is an extra exactly
  when its name is no entry's file name and it is the file observed under that name: the
  one in the disabled directory when the name is there, else the one in the enabled
  directory.
\<close>

theorem inventory_totals_and_extras:
  assumes "fst (ensure_directories cfg (Some m) fs) = Inr ()"
  shows "\<exists>ivt a b c d.
           fst (inventory H cfg m fs) = Inr ivt \<and>
           summary ivt =
             [(''total'', length (mods m)), (''ok'', a), (''missing'', b), (''moved'', c),
              (''hash_mismatch'', d), (''extras'', length (extras ivt))] \<and>
           a + b + c + d = length (mods m) \<and>
           distinct (map f_filename (extras ivt)) \<and>
           (\<forall>x. x \<in> set (extras ivt) \<longleftrightarrow>
              f_filename x \<notin> filename ` set (mods m) \<and>
              observed_file H fs cfg m (f_filename x) = Some x)"
proof -
  obtain fs1 where e: "ensure_directories cfg (Some m) fs = (Inr (), fs1)"
    using assms(1) by (cases "ensure_directories cfg (Some m) fs") auto
  obtain files where f: "distinct (map fst files)" "\<And>n. map_of files n = observed_file H fs cfg m n"
    "inventory H cfg m fs =
       (Inr \<lparr>entries = fst (inventory_loop (mods m) files []),
             extras = map snd (snd (inventory_loop (mods m) files []))\<rparr>, fs1, m)"
    using inventory_char[OF e, of H] by blast
  let ?ivt = "\<lparr>entries = fst (inventory_loop (mods m) files []),
             extras = map snd (snd (inventory_loop (mods m) files []))\<rparr>"
  have 1: "fst (inventory H cfg m fs) = Inr ?ivt" using f(3) by simp
  have 2: "summary ?ivt =
             [(''total'', length (mods m)), (''ok'', count_status ?ivt ''ok''),
              (''missing'', count_status ?ivt ''missing''), (''moved'', count_status ?ivt ''moved''),
              (''hash_mismatch'', count_status ?ivt ''hash-mismatch''),
              (''extras'', length (extras ?ivt))]"
    by (simp add: summary_def inventory_loop_length)
  have 3: "count_status ?ivt ''ok'' + count_status ?ivt ''missing'' + count_status ?ivt ''moved'' +
           count_status ?ivt ''hash-mismatch'' = length (mods m)"
    using status_counts[of "fst (inventory_loop (mods m) files [])"]
    by (simp add: count_status_def inventory_loop_length)
  have 4: "distinct (map f_filename (extras ?ivt))"
    using extras_char(1)[OF f(1) f(2)] by simp
  have 5: "\<forall>x. x \<in> set (extras ?ivt) \<longleftrightarrow>
              f_filename x \<notin> filename ` set (mods m) \<and>
              observed_file H fs cfg m (f_filename x) = Some x"
    using extras_char(2)[OF f(1) f(2)] by simp
  show ?thesis using 1 2 3 4 5 by blast
qed

lemma ex_observed_both:
  "observed_file ex_digest ex_fs_both ex_cfg (ex_manifest ''mods'' es) ''a.jar'' =
     Some \<lparr>f_filename = ''a.jar'', f_path = [''srv'', ''data'', ''mods-disabled'', ''a.jar''],
           f_location = ''mods-disabled'', f_sha256 = Some ''sha:two''\<rparr>"
  by (simp add: observed_file_def ex_dirs is_mod_file_def is_file_def node_at_def ex_fs_both_def
      path_name_def ex_suffix_jar read_bytes_def ex_digest_def)

theorem inventory_totals_and_extras_witness:
  "fst (ensure_directories ex_cfg (Some (ex_manifest ''mods'' [])) ex_fs_both) = Inr () \<and>
   (\<exists>ivt. fst (inventory ex_digest ex_cfg (ex_manifest ''mods'' []) ex_fs_both) = Inr ivt \<and>
      \<lparr>f_filename = ''a.jar'', f_path = [''srv'', ''data'', ''mods-disabled'', ''a.jar''],
       f_location = ''mods-disabled'', f_sha256 = Some ''sha:two''\<rparr> \<in> set (extras ivt) \<and>
      map_of (summary ivt) ''total'' = Some 0)"
proof -
  have h: "fst (ensure_directories ex_cfg (Some (ex_manifest ''mods'' [])) ex_fs_both) = Inr ()"
    by (simp add: ex_ensure_both)
  obtain ivt where i: "fst (inventory ex_digest ex_cfg (ex_manifest ''mods'' []) ex_fs_both) = Inr ivt"
    "map_of (summary ivt) ''total'' = Some (length (mods (ex_manifest ''mods'' [])))"
    "\<forall>x. x \<in> set (extras ivt) \<longleftrightarrow>
              f_filename x \<notin> filename ` set (mods (ex_manifest ''mods'' [])) \<and>
              observed_file ex_digest ex_fs_both ex_cfg (ex_manifest ''mods'' []) (f_filename x) = Some x"
    using inventory_totals_and_extras[OF h, of ex_digest] by auto
  have "\<lparr>f_filename = ''a.jar'', f_path = [''srv'', ''data'', ''mods-disabled'', ''a.jar''],
       f_location = ''mods-disabled'', f_sha256 = Some ''sha:two''\<rparr> \<in> set (extras ivt)"
    using i(3) by (simp add: ex_manifest_sel ex_observed_both)
  then show ?thesis using h i(1,2) by (auto simp: ex_manifest_sel)
qed

lemma observed_file_path:
  "observed_file H fs cfg m n = Some f \<Longrightarrow>
   f_path f = disabled_dir cfg (Some m) @ [n] \<or> f_path f = mods_dir cfg (Some m) @ [n]"
  by (auto simp: observed_file_def split: if_splits)

text \<open>
  C3 as stated fails when one name is in both directories and in no entry: the file in the
  enabled directory is a mod file on disk that no entry matches, and no extra reports it.
\<close>

theorem enabled_twin_not_reported_counterexample:
  "\<not> isl (fst (inventory ex_digest ex_cfg (ex_manifest ''mods'' []) ex_fs_both)) \<and>
   is_mod_file ex_fs_both [''srv'', ''data'', ''mods'', ''a.jar''] \<and>
   mods (ex_manifest ''mods'' []) = [] \<and>
   [''srv'', ''data'', ''mods'', ''a.jar'']
     \<notin> f_path ` set (extras (projr (fst (inventory ex_digest ex_cfg (ex_manifest ''mods'' []) ex_fs_both))))"
proof -
  let ?m = "ex_manifest ''mods'' []"
  obtain files where f: "distinct (map fst files)"
    "\<And>n. map_of files n = observed_file ex_digest ex_fs_both ex_cfg ?m n"
    "inventory ex_digest ex_cfg ?m ex_fs_both =
       (Inr \<lparr>entries = fst (inventory_loop (mods ?m) files []),
             extras = map snd (snd (inventory_loop (mods ?m) files []))\<rparr>, ex_fs_both, ?m)"
    using inventory_char[OF ex_ensure_both, where H = ex_digest and es1 = "[]"] by blast
  have 1: "is_mod_file ex_fs_both [''srv'', ''data'', ''mods'', ''a.jar'']"
    by (simp add: is_mod_file_def is_file_def node_at_def ex_fs_both_def path_name_def ex_suffix_jar)
  have 3: "[''srv'', ''data'', ''mods'', ''a.jar'']
     \<notin> f_path ` set (extras (projr (fst (inventory ex_digest ex_cfg ?m ex_fs_both))))"
  proof
    assume "[''srv'', ''data'', ''mods'', ''a.jar'']
      \<in> f_path ` set (extras (projr (fst (inventory ex_digest ex_cfg ?m ex_fs_both))))"
    then have "\<exists>x \<in> set (map snd (snd (inventory_loop (mods ?m) files []))).
        f_path x = [''srv'', ''data'', ''mods'', ''a.jar'']"
      unfolding f(3) by force
    then obtain x where x: "x \<in> set (map snd (snd (inventory_loop (mods ?m) files [])))"
      "f_path x = [''srv'', ''data'', ''mods'', ''a.jar'']"
      by blast
    have o: "observed_file ex_digest ex_fs_both ex_cfg ?m (f_filename x) = Some x"
      using extras_char(2)[OF f(1) f(2), of x "mods ?m"] x(1) by simp
    from observed_file_path[OF this]
    have n: "f_filename x = ''a.jar''" using x(2) by (auto simp: ex_dirs)
    show False using o x(2) unfolding n ex_observed_both by auto
  qed
  have 0: "\<not> isl (fst (inventory ex_digest ex_cfg ?m ex_fs_both))"
    unfolding f(3) by simp
  show ?thesis using 0 1 3 by (simp add: ex_manifest_sel)
qed

lemma observed_file_location:
  "observed_file H fs cfg m n = Some f \<Longrightarrow>
   f_location f = (if is_mod_file fs (disabled_dir cfg (Some m) @ [n]) then ''mods-disabled'' else ''mods'')"
  by (auto simp: observed_file_def split: if_splits)

subsection \<open>Entries that share a file name\<close>

text \<open>
  C10: when several entries have one file name and exactly one of the two directories holds
  a mod file of that name, inventory matches the file to the first of these entries, with
  the location of that directory, reports every later one \<^verbatim>\<open>missing\<close>, and does not list the
  file among the extras.
\<close>

theorem shared_filename_first_entry_wins:
  assumes "fst (ensure_directories cfg (Some m) fs) = Inr ()"
    and "i < j" and "j < length (mods m)"
    and "filename (mods m ! i) = n" and "filename (mods m ! j) = n"
    and "n \<notin> filename ` set (take i (mods m))"
    and "is_mod_file fs (mods_dir cfg (Some m) @ [n]) \<noteq> is_mod_file fs (disabled_dir cfg (Some m) @ [n])"
  shows "\<exists>ivt. fst (inventory H cfg m fs) = Inr ivt \<and>
           entry (entries ivt ! i) = mods m ! i \<and>
           present (entries ivt ! i) \<and>
           location (entries ivt ! i) =
             Some (if is_mod_file fs (disabled_dir cfg (Some m) @ [n]) then ''mods-disabled'' else ''mods'') \<and>
           entry (entries ivt ! j) = mods m ! j \<and>
           \<not> present (entries ivt ! j) \<and>
           status (entries ivt ! j) = ''missing'' \<and>
           n \<notin> f_filename ` set (extras ivt)"
proof -
  obtain fs1 where e: "ensure_directories cfg (Some m) fs = (Inr (), fs1)"
    using assms(1) by (cases "ensure_directories cfg (Some m) fs") auto
  obtain files where f: "distinct (map fst files)" "\<And>k. map_of files k = observed_file H fs cfg m k"
    "inventory H cfg m fs =
       (Inr \<lparr>entries = fst (inventory_loop (mods m) files []),
             extras = map snd (snd (inventory_loop (mods m) files []))\<rparr>, fs1, m)"
    using inventory_char[OF e, of H] by blast
  let ?ivt = "\<lparr>entries = fst (inventory_loop (mods m) files []),
             extras = map snd (snd (inventory_loop (mods m) files []))\<rparr>"
  have i: "i < length (mods m)" using assms(2,3) by simp
  obtain f0 where o: "observed_file H fs cfg m n = Some f0"
    using assms(7) by (auto simp: observed_file_def)
  have ei: "entries ?ivt ! i = entry_status (mods m ! i) (Some f0)"
    using inventory_loop_nth[OF i, of files] f(2) assms(4,6) o by simp
  have "mods m ! i \<in> set (take j (mods m))"
    using assms(2,3) by (metis in_set_conv_nth length_take min.absorb2 nth_take order_less_imp_le)
  then have "n \<in> filename ` set (take j (mods m))" using assms(4) by force
  then have ej: "entries ?ivt ! j = entry_status (mods m ! j) None"
    using inventory_loop_nth[OF assms(3), of files] assms(5) by simp
  have "mods m ! i \<in> set (mods m)" using i by simp
  then have "n \<in> filename ` set (mods m)" using assms(4) by force
  have x: "n \<notin> f_filename ` set (extras ?ivt)"
  proof
    assume "n \<in> f_filename ` set (extras ?ivt)"
    then obtain y where y: "y \<in> set (map snd (snd (inventory_loop (mods m) files [])))" "f_filename y = n"
      by auto
    from y(1) have "f_filename y \<notin> filename ` set (mods m)"
      using extras_char(2)[OF f(1) f(2), of y "mods m"] by simp
    with y(2) \<open>n \<in> filename ` set (mods m)\<close> show False by simp
  qed
  have 1: "fst (inventory H cfg m fs) = Inr ?ivt" using f(3) by simp
  have 2: "entry (entries ?ivt ! i) = mods m ! i" "present (entries ?ivt ! i)"
    "location (entries ?ivt ! i) =
       Some (if is_mod_file fs (disabled_dir cfg (Some m) @ [n]) then ''mods-disabled'' else ''mods'')"
    unfolding ei using observed_file_location[OF o] by (simp_all add: entry_status_def)
  have 3: "entry (entries ?ivt ! j) = mods m ! j" "\<not> present (entries ?ivt ! j)"
    "status (entries ?ivt ! j) = ''missing''"
    unfolding ej by (simp_all add: status_absent) (simp_all add: entry_status_def)
  show ?thesis using 1 2 3 x by blast
qed

theorem shared_filename_first_entry_wins_witness:
  "fst (ensure_directories ex_cfg (Some ex_twins) ex_fs_one) = Inr () \<and>
   is_mod_file ex_fs_one (mods_dir ex_cfg (Some ex_twins) @ [''a.jar'']) \<and>
   \<not> is_mod_file ex_fs_one (disabled_dir ex_cfg (Some ex_twins) @ [''a.jar'']) \<and>
   (\<exists>ivt. fst (inventory ex_digest ex_cfg ex_twins ex_fs_one) = Inr ivt \<and>
      location (entries ivt ! 0) = Some ''mods'' \<and>
      status (entries ivt ! 1) = ''missing'' \<and>
      ''a.jar'' \<notin> f_filename ` set (extras ivt))"
proof -
  have h: "fst (ensure_directories ex_cfg (Some ex_twins) ex_fs_one) = Inr ()"
    by (simp add: ex_twins_def ex_ensure_one)
  have d: "mods_dir ex_cfg (Some ex_twins) = [''srv'', ''data'', ''mods'']"
    "disabled_dir ex_cfg (Some ex_twins) = [''srv'', ''data'', ''mods-disabled'']"
    by (simp_all add: ex_twins_def ex_dirs)
  have a: "is_mod_file ex_fs_one (mods_dir ex_cfg (Some ex_twins) @ [''a.jar''])"
    by (simp add: d is_mod_file_def is_file_def node_at_def ex_fs_one_def path_name_def ex_suffix_jar)
  have b: "\<not> is_mod_file ex_fs_one (disabled_dir ex_cfg (Some ex_twins) @ [''a.jar''])"
    by (simp add: d is_mod_file_def is_file_def node_at_def ex_fs_one_def)
  have ne: "is_mod_file ex_fs_one (mods_dir ex_cfg (Some ex_twins) @ [''a.jar'']) \<noteq>
            is_mod_file ex_fs_one (disabled_dir ex_cfg (Some ex_twins) @ [''a.jar''])"
    using a b by simp
  have l: "(0::nat) < 1" "(1::nat) < length (mods ex_twins)"
    "filename (mods ex_twins ! 0) = ''a.jar''" "filename (mods ex_twins ! 1) = ''a.jar''"
    "''a.jar'' \<notin> filename ` set (take 0 (mods ex_twins))"
    by (simp_all add: ex_twins_mods ex_entry_sel)
  show ?thesis
    using h a b shared_filename_first_entry_wins[OF h l ne, of ex_digest]
    by auto
qed

lemma mkdir_rev_only_prefix:
  "mkdir_rev rp fs = Inr fs' \<Longrightarrow> map_of fs' q \<noteq> map_of fs q \<Longrightarrow> take (length q) (rev rp) = q"
proof (induction rp arbitrary: fs')
  case Nil
  then show ?case by simp
next
  case (Cons c rp)
  show ?case
  proof (cases "q = rev (c # rp)")
    case True
    then show ?thesis by simp
  next
    case False
    have "\<exists>fs1. mkdir_rev rp fs = Inr fs1 \<and> map_of fs1 q \<noteq> map_of fs q"
      using Cons.prems False
      by (auto simp: update_conv' split: option.splits node.splits sum.splits if_splits)
    then obtain fs1 where "mkdir_rev rp fs = Inr fs1" "map_of fs1 q \<noteq> map_of fs q" by blast
    from Cons.IH[OF this] have t: "take (length q) (rev rp) = q" .
    have "length (take (length q) (rev rp)) \<le> length rp" by simp
    then have "length q \<le> length rp" using t by simp
    with t show ?thesis by simp
  qed
qed

lemma node_at_mkdir_only_prefix:
  "mkdir_parents p fs = Inr fs' \<Longrightarrow> node_at fs' q \<noteq> node_at fs q \<Longrightarrow> take (length q) p = q"
  using mkdir_rev_only_prefix[of "rev p" fs fs' q]
  by (auto simp: mkdir_parents_def node_at_def split: if_splits)

lemma ensure_only_prefix:
  assumes "ensure_directories cfg mo fs = (r, fs')" and "node_at fs' q \<noteq> node_at fs q"
  shows "take (length q) (mods_dir cfg mo) = q \<or> take (length q) (disabled_dir cfg mo) = q"
proof (cases "mkdir_parents (mods_dir cfg mo) fs")
  case (Inl e)
  then show ?thesis using assms by (simp add: ensure_directories_def)
next
  case (Inr fs1)
  show ?thesis
  proof (cases "mkdir_parents (disabled_dir cfg mo) fs1")
    case (Inl e)
    then have "fs' = fs1" using assms(1) Inr by (simp add: ensure_directories_def)
    then show ?thesis using node_at_mkdir_only_prefix[OF Inr, of q] assms(2) by simp
  next
    case r2: (Inr fs2)
    then have "fs' = fs2" using assms(1) Inr by (simp add: ensure_directories_def)
    then have "node_at fs1 q \<noteq> node_at fs q \<or> node_at fs2 q \<noteq> node_at fs1 q"
      using assms(2) by auto
    then show ?thesis
      using node_at_mkdir_only_prefix[OF Inr, of q] node_at_mkdir_only_prefix[OF r2, of q] by blast
  qed
qed

lemma inventory_fs:
  "inventory H cfg m fs = (r, fs', m') \<Longrightarrow>
   m' = m \<and> fs' = snd (ensure_directories cfg (Some m) fs)"
  by (auto simp: inventory_def split: prod.splits sum.splits)

subsection \<open>What inventory leaves behind\<close>

text \<open>
  C6, as amended: inventory returns the manifest it was given, and on disk it only creates
  directories: every file and directory that existed is unchanged, no file appears, and a
  path that is new is a directory on the way to the enabled or to the disabled directory.
  When both directories exist the file system is left as it was.
\<close>

theorem inventory_frame:
  assumes "inventory H cfg m fs = (r, fs', m')"
  shows "m' = m \<and>
         (\<forall>p n. node_at fs p = Some n \<longrightarrow> node_at fs' p = Some n) \<and>
         (\<forall>p c. node_at fs' p = Some (File c) \<longrightarrow> node_at fs p = Some (File c)) \<and>
         (\<forall>p. node_at fs' p \<noteq> node_at fs p \<longrightarrow>
            node_at fs' p = Some Dir \<and>
            (take (length p) (mods_dir cfg (Some m)) = p \<or>
             take (length p) (disabled_dir cfg (Some m)) = p)) \<and>
         (node_at fs (mods_dir cfg (Some m)) = Some Dir \<and>
          node_at fs (disabled_dir cfg (Some m)) = Some Dir \<longrightarrow> fs' = fs)"
proof -
  have m: "m' = m" and f: "fs' = snd (ensure_directories cfg (Some m) fs)"
    using inventory_fs[OF assms] by simp_all
  obtain r1 where e: "ensure_directories cfg (Some m) fs = (r1, fs')"
    using f by (cases "ensure_directories cfg (Some m) fs") simp
  have 1: "\<forall>p n. node_at fs p = Some n \<longrightarrow> node_at fs' p = Some n"
    using ensure_keeps[OF e] by blast
  have 2: "\<forall>p c. node_at fs' p = Some (File c) \<longrightarrow> node_at fs p = Some (File c)"
    using ensure_no_new_file[OF e] by blast
  have 3: "node_at fs' p = Some Dir \<and>
            (take (length p) (mods_dir cfg (Some m)) = p \<or>
             take (length p) (disabled_dir cfg (Some m)) = p)"
    if d: "node_at fs' p \<noteq> node_at fs p" for p
  proof -
    have "node_at fs p = None" using d 1 by (cases "node_at fs p") auto
    moreover have "node_at fs' p \<noteq> None" using d calculation by simp
    ultimately have "node_at fs' p = Some Dir"
      using 2 by (cases "node_at fs' p") (auto, metis node.exhaust option.distinct(1))
    then show ?thesis using ensure_only_prefix[OF e d] by simp
  qed
  have 4: "node_at fs (mods_dir cfg (Some m)) = Some Dir \<and>
          node_at fs (disabled_dir cfg (Some m)) = Some Dir \<longrightarrow> fs' = fs"
    using f by (auto simp: ensure_same)
  show ?thesis using m 1 2 3 4 by blast
qed

theorem inventory_frame_witness:
  "snd (inventory ex_digest ex_cfg (ex_manifest ''mods'' []) ex_fs_both) =
     (ex_fs_both, ex_manifest ''mods'' [])"
proof -
  let ?i = "inventory ex_digest ex_cfg (ex_manifest ''mods'' []) ex_fs_both"
  have h: "?i = (fst ?i, fst (snd ?i), snd (snd ?i))" by simp
  have d: "node_at ex_fs_both (mods_dir ex_cfg (Some (ex_manifest ''mods'' []))) = Some Dir"
    "node_at ex_fs_both (disabled_dir ex_cfg (Some (ex_manifest ''mods'' []))) = Some Dir"
    by (simp_all add: ex_dirs node_at_def ex_fs_both_def)
  have "snd (snd ?i) = ex_manifest ''mods'' [] \<and> fst (snd ?i) = ex_fs_both"
    using inventory_frame[OF h] d by blast
  then show ?thesis by (simp add: prod_eq_iff)
qed

text \<open>
  C6 as stated fails on a data directory that holds neither of the two directories:
  inventory creates both.
\<close>

theorem inventory_creates_directories_counterexample:
  "node_at ex_fs_bare [''srv'', ''data'', ''mods''] = None \<and>
   node_at ex_fs_bare [''srv'', ''data'', ''mods-disabled''] = None \<and>
   fst (snd (inventory ex_digest ex_cfg (ex_manifest ''mods'' []) ex_fs_bare)) =
     [([''srv''], Dir), ([''srv'', ''data''], Dir), ([''srv'', ''data'', ''mods''], Dir),
      ([''srv'', ''data'', ''mods-disabled''], Dir)] \<and>
   fst (snd (inventory ex_digest ex_cfg (ex_manifest ''mods'' []) ex_fs_bare)) \<noteq> ex_fs_bare"
proof -
  have e: "ensure_directories ex_cfg (Some (ex_manifest ''mods'' [])) ex_fs_bare =
     (Inr (), [([''srv''], Dir), ([''srv'', ''data''], Dir), ([''srv'', ''data'', ''mods''], Dir),
      ([''srv'', ''data'', ''mods-disabled''], Dir)])"
    by (simp add: ensure_directories_def ex_dirs mkdir_parents_def ex_fs_bare_def)
  have "fst (snd (inventory ex_digest ex_cfg (ex_manifest ''mods'' []) ex_fs_bare)) =
     [([''srv''], Dir), ([''srv'', ''data''], Dir), ([''srv'', ''data'', ''mods''], Dir),
      ([''srv'', ''data'', ''mods-disabled''], Dir)]"
    using inventory_fs[of ex_digest ex_cfg "ex_manifest ''mods'' []" ex_fs_bare
        "fst (inventory ex_digest ex_cfg (ex_manifest ''mods'' []) ex_fs_bare)"
        "fst (snd (inventory ex_digest ex_cfg (ex_manifest ''mods'' []) ex_fs_bare))"
        "snd (snd (inventory ex_digest ex_cfg (ex_manifest ''mods'' []) ex_fs_bare))"] e
    by simp
  then show ?thesis by (simp add: node_at_def ex_fs_bare_def)
qed

subsection \<open>The manifest file\<close>

lemma manifest_path_parent: "butlast (manifest_path cfg) = data_dir cfg @ [DEFAULT_MODS_DIR]"
  by (simp add: manifest_path_def butlast_append)

lemma save_manifest_written:
  assumes "save_manifest dump cfg m fs = (Inr u, fs')"
  shows "node_at fs' (manifest_path cfg) = Some (File (dump m))"
    and "p \<noteq> manifest_path cfg \<Longrightarrow> node_at fs p = Some n \<Longrightarrow> node_at fs' p = Some n"
    and "p \<noteq> manifest_path cfg \<Longrightarrow> node_at fs' p = Some (File c) \<Longrightarrow> node_at fs p = Some (File c)"
proof -
  obtain fs1 where 1: "mkdir_parents (butlast (manifest_path cfg)) fs = Inr fs1"
    and 2: "write_text (manifest_path cfg) (dump m) fs1 = Inr fs'"
    using assms by (auto simp: save_manifest_def split: sum.splits)
  have ne: "manifest_path cfg \<noteq> []" by (simp add: manifest_path_def)
  have 3: "fs' = AList.update (manifest_path cfg) (File (dump m)) fs1"
    using 2 by (auto simp: write_text_def split: if_splits option.splits node.splits)
  show "node_at fs' (manifest_path cfg) = Some (File (dump m))"
    using ne by (simp add: 3 node_at_def update_conv')
  have o: "node_at fs' p = node_at fs1 p" if "p \<noteq> manifest_path cfg" for p
    using that by (simp add: 3 node_at_def update_conv')
  show "p \<noteq> manifest_path cfg \<Longrightarrow> node_at fs p = Some n \<Longrightarrow> node_at fs' p = Some n"
    using o node_at_mkdir_keeps[OF 1] by simp
  show "p \<noteq> manifest_path cfg \<Longrightarrow> node_at fs' p = Some (File c) \<Longrightarrow> node_at fs p = Some (File c)"
    using o node_at_mkdir_no_new_file[OF 1] by simp
qed

lemma save_manifest_error:
  "save_manifest dump cfg m fs = (Inl e, fs') \<Longrightarrow> \<exists>s. e = OSError s"
  by (auto simp: save_manifest_def mkdir_parents_def write_text_def
      split: sum.splits if_splits option.splits node.splits list.splits
      elim!: mkdir_rev.elims)

lemma save_manifest_ok:
  assumes "node_at fs (butlast (manifest_path cfg)) = Some Dir"
    and "node_at fs (manifest_path cfg) \<noteq> Some Dir"
  shows "save_manifest dump cfg m fs = (Inr (), AList.update (manifest_path cfg) (File (dump m)) fs)"
proof -
  have ne: "manifest_path cfg \<noteq> []" by (simp add: manifest_path_def)
  show ?thesis
    using assms ne
    by (simp add: save_manifest_def mkdir_parents_same write_text_def split: option.splits node.splits)
qed

text \<open>
  C5, as amended: the manifest document is saved to and loaded from the fixed path
  \<^verbatim>\<open><dataDir>/mods/.mscmods.json\<close>, whatever the manifest's \<^verbatim>\<open>mods_dir\<close> is; a manifest that
  was saved is the one loaded back when the parser inverts the serialiser. The path lies in
  the enabled directory when \<^verbatim>\<open>mods_dir\<close> is \<^verbatim>\<open>mods\<close>.
\<close>

theorem manifest_file_location:
  "manifest_path cfg = data_dir cfg @ [''mods'', ''.mscmods.json''] \<and>
   (save_manifest dump cfg m fs = (Inr (), fs') \<longrightarrow>
      node_at fs' (data_dir cfg @ [''mods'', ''.mscmods.json'']) = Some (File (dump m))) \<and>
   (load_manifest parse cfg fs = Inr m \<longrightarrow>
      (\<exists>c. node_at fs (data_dir cfg @ [''mods'', ''.mscmods.json'']) = Some (File c) \<and> parse c = Some m)) \<and>
   (save_manifest dump cfg m fs = (Inr (), fs') \<and> parse (dump m) = Some m \<and>
    schema_version m = SUPPORTED_SCHEMA_VERSION \<longrightarrow> load_manifest parse cfg fs' = Inr m) \<and>
   (m_mods_dir m = ''mods'' \<longrightarrow> manifest_path cfg = mods_dir cfg (Some m) @ [''.mscmods.json''])"
proof -
  have p: "manifest_path cfg = data_dir cfg @ [''mods'', ''.mscmods.json'']"
    by (simp add: manifest_path_def DEFAULT_MODS_DIR_def MANIFEST_FILENAME_def)
  have s: "save_manifest dump cfg m fs = (Inr (), fs') \<longrightarrow>
      node_at fs' (data_dir cfg @ [''mods'', ''.mscmods.json'']) = Some (File (dump m))"
    using save_manifest_written(1)[of dump cfg m fs "()" fs'] p by simp
  have l: "load_manifest parse cfg fs = Inr m \<longrightarrow>
      (\<exists>c. node_at fs (data_dir cfg @ [''mods'', ''.mscmods.json'']) = Some (File c) \<and> parse c = Some m)"
    unfolding p[symmetric]
    by (auto simp: load_manifest_def split: option.splits node.splits if_splits)
  have r: "save_manifest dump cfg m fs = (Inr (), fs') \<and> parse (dump m) = Some m \<and>
    schema_version m = SUPPORTED_SCHEMA_VERSION \<longrightarrow> load_manifest parse cfg fs' = Inr m"
    using save_manifest_written(1)[of dump cfg m fs "()" fs']
    by (auto simp: load_manifest_def)
  have d: "m_mods_dir m = ''mods'' \<longrightarrow> manifest_path cfg = mods_dir cfg (Some m) @ [''.mscmods.json'']"
    by (simp add: p mods_dir_def)
  show ?thesis using p s l r d by blast
qed

lemma ex_save_bare:
  "save_manifest ex_dump ex_cfg (ex_manifest d []) ex_fs_bare =
     (Inr (), [([''srv''], Dir), ([''srv'', ''data''], Dir), ([''srv'', ''data'', ''mods''], Dir),
               ([''srv'', ''data'', ''mods'', ''.mscmods.json''], File (''manifest in '' @ d))])"
  by (simp add: save_manifest_def manifest_path_def DEFAULT_MODS_DIR_def MANIFEST_FILENAME_def
      ex_cfg_def mkdir_parents_def ex_fs_bare_def write_text_def node_at_def ex_dump_def ex_manifest_sel)

theorem manifest_file_location_witness:
  "node_at (snd (save_manifest ex_dump ex_cfg (ex_manifest ''mods'' []) ex_fs_bare))
     [''srv'', ''data'', ''mods'', ''.mscmods.json''] = Some (File ''manifest in mods'') \<and>
   manifest_path ex_cfg = mods_dir ex_cfg (Some (ex_manifest ''mods'' [])) @ [''.mscmods.json'']"
proof -
  let ?fs = "snd (save_manifest ex_dump ex_cfg (ex_manifest ''mods'' []) ex_fs_bare)"
  have h: "save_manifest ex_dump ex_cfg (ex_manifest ''mods'' []) ex_fs_bare = (Inr (), ?fs)"
    by (simp add: ex_save_bare)
  have g: "m_mods_dir (ex_manifest ''mods'' []) = ''mods''" by (simp add: ex_manifest_sel)
  note t = manifest_file_location[of ex_cfg ex_dump "ex_manifest ''mods'' []" ex_fs_bare ?fs "\<lambda>c. None"]
  from t h have a: "node_at ?fs (data_dir ex_cfg @ [''mods'', ''.mscmods.json'']) =
      Some (File (ex_dump (ex_manifest ''mods'' [])))"
    by blast
  from t g have b: "manifest_path ex_cfg = mods_dir ex_cfg (Some (ex_manifest ''mods'' [])) @ [''.mscmods.json'']"
    by blast
  have c: "data_dir ex_cfg = [''srv'', ''data'']" by (simp add: ex_cfg_def)
  show ?thesis using a b by (simp add: c ex_dump_def ex_manifest_sel)
qed

text \<open>
  C5 as stated fails for a manifest whose \<^verbatim>\<open>mods_dir\<close> is \<^verbatim>\<open>plugins\<close>: the document is saved
  under \<^verbatim>\<open>mods\<close>, and nothing is written under \<^verbatim>\<open>plugins\<close>.
\<close>

theorem manifest_path_ignores_mods_dir_counterexample:
  "m_mods_dir (ex_manifest ''plugins'' []) = ''plugins'' \<and>
   manifest_path ex_cfg = [''srv'', ''data'', ''mods'', ''.mscmods.json''] \<and>
   fst (save_manifest ex_dump ex_cfg (ex_manifest ''plugins'' []) ex_fs_bare) = Inr () \<and>
   node_at (snd (save_manifest ex_dump ex_cfg (ex_manifest ''plugins'' []) ex_fs_bare))
     [''srv'', ''data'', ''mods'', ''.mscmods.json''] = Some (File ''manifest in plugins'') \<and>
   node_at (snd (save_manifest ex_dump ex_cfg (ex_manifest ''plugins'' []) ex_fs_bare))
     [''srv'', ''data'', ''plugins'', ''.mscmods.json''] = None"
  by (simp add: ex_save_bare ex_manifest_sel node_at_def)
     (simp add: manifest_path_def DEFAULT_MODS_DIR_def MANIFEST_FILENAME_def ex_cfg_def)

subsection \<open>Enable and disable\<close>



lemma ids_set_entry_enabled: "map entry_id (set_entry_enabled i b es) = map entry_id es"
  by (induction es) auto

lemma ex_ensure_live:
  "ensure_directories ex_cfg (Some (ex_manifest ''mods'' es)) ex_fs_live = (Inr (), ex_fs_live)"
  by (rule ensure_same) (simp_all add: ex_dirs node_at_def ex_fs_live_def)

text \<open>
  C7: enabling an entry that is enabled, or disabling one that is disabled, succeeds and
  returns the entry; the manifest is the one given, and the disk is what
  \<^verbatim>\<open>ensure_directories\<close> leaves, so that no regular file appears, disappears or changes,
  the manifest file included.
\<close>

theorem set_enabled_idempotent:
  assumes "find m mod_id = Inr e" and "enabled e = en"
    and "fst (ensure_directories cfg (Some m) fs) = Inr ()"
  shows "\<exists>fs'. set_enabled dump cfg m mod_id en move_files fs = (Inr e, fs', m) \<and>
           fs' = snd (ensure_directories cfg (Some m) fs) \<and>
           (\<forall>p c. node_at fs' p = Some (File c) \<longleftrightarrow> node_at fs p = Some (File c))"
proof -
  obtain fs1 where e: "ensure_directories cfg (Some m) fs = (Inr (), fs1)"
    using assms(3) by (cases "ensure_directories cfg (Some m) fs") auto
  have "set_enabled dump cfg m mod_id en move_files fs = (Inr e, fs1, m)"
    using e assms(1,2) by (simp add: set_enabled_def del: find.simps)
  moreover have "fs1 = snd (ensure_directories cfg (Some m) fs)" using e by simp
  ultimately show ?thesis using ensure_file_iff[OF e] by blast
qed

theorem set_enabled_idempotent_witness:
  "find ex_solo ''sodium'' = Inr (ex_entry ''sodium'' ''sodium.jar'' True None) \<and>
   set_enabled ex_dump ex_cfg ex_solo ''sodium'' True True ex_fs_live =
     (Inr (ex_entry ''sodium'' ''sodium.jar'' True None), ex_fs_live, ex_solo)"
proof -
  have f: "find ex_solo ''sodium'' = Inr (ex_entry ''sodium'' ''sodium.jar'' True None)"
    by (simp add: ex_solo_def ex_manifest_sel ex_entry_sel)
  have en: "enabled (ex_entry ''sodium'' ''sodium.jar'' True None) = True"
    by (simp add: ex_entry_sel)
  have h: "fst (ensure_directories ex_cfg (Some ex_solo) ex_fs_live) = Inr ()"
    by (simp add: ex_solo_def ex_ensure_live)
  obtain fs' where r: "set_enabled ex_dump ex_cfg ex_solo ''sodium'' True True ex_fs_live =
      (Inr (ex_entry ''sodium'' ''sodium.jar'' True None), fs', ex_solo)"
    using set_enabled_idempotent[OF f en h, of ex_dump True] by blast
  have "fst (snd (set_enabled ex_dump ex_cfg ex_solo ''sodium'' True True ex_fs_live)) = ex_fs_live"
    using f by (simp add: set_enabled_def ex_solo_def ex_ensure_live ex_entry_sel del: find.simps)
  then have "fs' = ex_fs_live" using r by simp
  with r f show ?thesis by simp
qed




lemma ex_lower_upper: "lower ''FABRIC'' = ''fabric''"
  by code_simp





subsection \<open>Entry ids\<close>

lemma add_Inr: "add m e = Inr m' \<Longrightarrow> mods m' = mods m @ [e] \<and> entry_id e \<notin> entry_id ` set (mods m)"
  by (auto simp: add_def list_ex_iff split: if_splits)

lemma add_existing:
  "entry_id e \<in> entry_id ` set (mods m) \<Longrightarrow>
   add m e = Inl (ManifestError (''Mod '' @ [CHR 0x27] @ entry_id e @ [CHR 0x27] @ '' already exists in manifest''))"
  by (auto simp: add_def list_ex_iff)

lemma distinct_ids_snoc:
  "distinct (map entry_id es) \<Longrightarrow> entry_id e \<notin> entry_id ` set es \<Longrightarrow> distinct (map entry_id (es @ [e]))"
  by simp

lemma add_resolved_mods:
  assumes "add_resolved dump now cfg m mod_id nm en pl pv resolved fs = (r, fs', m')"
  shows "(\<forall>e. r = Inr e \<longrightarrow> entry_id e \<notin> entry_id ` set (mods m) \<and> mods m' = mods m @ [e])"
    and "(\<forall>msg. r = Inl (ManifestError msg) \<longrightarrow> mods m' = mods m)"
    and "mods m' = mods m \<or> (\<exists>e. mods m' = mods m @ [e] \<and> entry_id e \<notin> entry_id ` set (mods m))"
proof -
  let ?i = "or_default (or_else mod_id (r_mod_id resolved)) (derive_mod_id (r_filename resolved))"
  show "(\<forall>e. r = Inr e \<longrightarrow> entry_id e \<notin> entry_id ` set (mods m) \<and> mods m' = mods m @ [e])"
    using assms
    by (auto simp: add_resolved_def Let_def split: if_splits sum.splits prod.splits dest!: add_Inr)
  show "(\<forall>msg. r = Inl (ManifestError msg) \<longrightarrow> mods m' = mods m)"
    using assms
    by (auto simp: add_resolved_def Let_def split: if_splits sum.splits prod.splits
        dest!: add_Inr save_manifest_error)
  show "mods m' = mods m \<or> (\<exists>e. mods m' = mods m @ [e] \<and> entry_id e \<notin> entry_id ` set (mods m))"
    using assms
    by (auto simp: add_resolved_def Let_def split: if_splits sum.splits prod.splits dest!: add_Inr)
qed

lemma add_resolved_existing:
  assumes "r_filename resolved \<noteq> []"
    and "or_default (or_else mod_id (r_mod_id resolved)) (derive_mod_id (r_filename resolved))
           \<in> entry_id ` set (mods m)"
  shows "add_resolved dump now cfg m mod_id nm en pl pv resolved fs =
     (Inl (ManifestError (''Mod '' @ [CHR 0x27] @
        or_default (or_else mod_id (r_mod_id resolved)) (derive_mod_id (r_filename resolved)) @
        [CHR 0x27] @ '' already exists in manifest.'')), fs, m)"
  using assms by (auto simp: add_resolved_def Let_def list_ex_iff)

lemma with_defaults_mods: "mods (with_defaults cfg m) = mods m"
  by (simp add: with_defaults_def Let_def)

lemma add_mod_steps:
  assumes "ensure_directories cfg (Some m) fs = (Inr (), fs1)"
    and "\<not> (manifest_only \<and> \<not> truthy fo)" and "t \<in> set SOURCE_TYPES"
  shows "add_mod resolvers user_path dump now cfg src m mod_id nm en (Some t) manifest_only fo lh mh vh pid fs =
     (case resolve_for_add resolvers cfg (with_defaults cfg m) manifest_only t
             (fst (normalize_source_identifier src t)) fo mod_id nm
             (preferred_loader_of cfg m lh) (preferred_mc_version_of cfg m mh)
             (if vh = None \<and> truthy (snd (normalize_source_identifier src t))
              then snd (normalize_source_identifier src t) else vh) pid fs1 of
        (Inl e, fs2) \<Rightarrow> (Inl e, fs2, with_defaults cfg m)
      | (Inr resolved, fs2) \<Rightarrow>
          add_resolved dump now cfg (with_defaults cfg m) mod_id nm en
            (preferred_loader_of cfg m lh) (preferred_mc_version_of cfg m mh) resolved fs2)"
proof -
  have a: "m_minecraft_version
             (if m_loader m = None \<and> truthy (or_else (m_loader m) (loader_from_config cfg))
              then m\<lparr>m_loader := or_else (m_loader m) (loader_from_config cfg)\<rparr> else m) =
           m_minecraft_version m"
    by simp
  have c1: "(manifest_only \<and> \<not> truthy fo) = False" using assms(2) by simp
  have c2: "(t \<notin> set SOURCE_TYPES) = False" using assms(3) by simp
  show ?thesis
    unfolding add_mod_def Let_def with_defaults_def preferred_loader_of_def preferred_mc_version_of_def
    by (simp only: assms(1) c1 c2 a prod.case sum.case option.case if_False)
qed

lemma add_mod_early:
  assumes "add_mod resolvers user_path dump now cfg src m mod_id nm en st manifest_only fo lh mh vh pid fs = (r, fs', m')"
  shows "(mods m' = mods m \<and> (\<exists>e. r = Inl e) \<and> (\<forall>msg. r = Inl (ManifestError msg) \<longrightarrow> mods m' = mods m)) \<or>
         (\<exists>pl pv resolved fs2.
            add_resolved dump now cfg (with_defaults cfg m) mod_id nm en pl pv resolved fs2 = (r, fs', m'))"
proof (cases "ensure_directories cfg (Some m) fs")
  case (Pair r1 fs1)
  show ?thesis
  proof (cases r1)
    case (Inl e)
    then show ?thesis using assms Pair by (auto simp: add_mod_def)
  next
    case (Inr u)
    then have e: "ensure_directories cfg (Some m) fs = (Inr (), fs1)" using Pair by simp
    show ?thesis
    proof (cases "manifest_only \<and> \<not> truthy fo")
      case True
      then show ?thesis using assms e by (auto simp: add_mod_def)
    next
      case nf: False
      define t where "t = (case st of None \<Rightarrow> infer_source_type user_path fs1 src | Some x \<Rightarrow> x)"
      show ?thesis
      proof (cases "t \<in> set SOURCE_TYPES")
        case False
        then show ?thesis using assms e nf unfolding t_def
          by (auto simp: add_mod_def Let_def)
      next
        case True
        have eq: "add_mod resolvers user_path dump now cfg src m mod_id nm en st manifest_only fo lh mh vh pid fs =
                  add_mod resolvers user_path dump now cfg src m mod_id nm en (Some t) manifest_only fo lh mh vh pid fs"
          using e unfolding t_def by (cases st) (simp_all add: add_mod_def)
        note s = add_mod_steps[OF e nf True, of resolvers user_path dump now src mod_id nm en lh mh vh pid]
        show ?thesis
          using assms unfolding eq s
          by (auto simp: with_defaults_mods split: prod.splits sum.splits)
      qed
    qed
  qed
qed

lemma add_mod_mods:
  assumes "add_mod resolvers user_path dump now cfg src m mod_id nm en st manifest_only fo lh mh vh pid fs = (r, fs', m')"
  shows "(\<forall>e. r = Inr e \<longrightarrow> entry_id e \<notin> entry_id ` set (mods m) \<and> mods m' = mods m @ [e])"
    and "(\<forall>msg. r = Inl (ManifestError msg) \<longrightarrow> mods m' = mods m)"
    and "mods m' = mods m \<or> (\<exists>e. mods m' = mods m @ [e] \<and> entry_id e \<notin> entry_id ` set (mods m))"
  using add_mod_early[OF assms] add_resolved_mods[where m = "with_defaults cfg m" and r = r and fs' = fs' and m' = m']
  by (auto simp: with_defaults_mods)

subsection \<open>The compatibility check\<close>

subsection \<open>Uniqueness of entry ids\<close>

lemma set_enabled_ids:
  "set_enabled dump cfg m i b move_files fs = (r, fs', m') \<Longrightarrow>
   map entry_id (mods m') = map entry_id (mods m)"
  by (auto simp: set_enabled_def Let_def ids_set_entry_enabled simp del: find.simps
      split: prod.splits sum.splits if_splits)

lemma remove_mods: "mods (snd (remove m i)) = filter (\<lambda>e. entry_id e \<noteq> i) (mods m)"
  by (simp add: remove_def Let_def)

lemma remove_mod_mods:
  assumes "remove_mod dump cfg m i remove_files fs = (r, fs', m')"
  shows "mods m' = mods m \<or> mods m' = filter (\<lambda>e. entry_id e \<noteq> i) (mods m)"
proof -
  have "m' = m \<or> m' = snd (remove m i)"
    using assms
    by (auto simp: remove_mod_def simp del: find.simps split: prod.splits sum.splits if_splits)
  then show ?thesis using remove_mods by auto
qed

lemma distinct_ids_filter:
  "distinct (map entry_id es) \<Longrightarrow> distinct (map entry_id (filter P es))"
  by (rule distinct_map_filter)

lemma remove_mod_distinct:
  assumes "distinct (map entry_id (mods m))"
    and "remove_mod dump cfg m i remove_files fs = (r, fs', m')"
  shows "distinct (map entry_id (mods m'))"
  using remove_mod_mods[OF assms(2)] assms(1) distinct_ids_filter by auto

lemma purge_loop_distinct:
  "distinct (map entry_id (mods m)) \<Longrightarrow>
   purge_loop dump cfg remove_files es c d fs m = (r, fs', m') \<Longrightarrow>
   distinct (map entry_id (mods m'))"
proof (induction es arbitrary: c d fs m)
  case Nil
  then show ?case by simp
next
  case (Cons e es)
  obtain r1 fs1 m1 where rm: "remove_mod dump cfg m (entry_id e) remove_files fs = (r1, fs1, m1)"
    by (cases "remove_mod dump cfg m (entry_id e) remove_files fs") auto
  have d1: "distinct (map entry_id (mods m1))"
    using remove_mod_distinct[OF Cons.prems(1) rm] .
  show ?case
  proof (cases r1)
    case (Inl err)
    then have "m' = m1" using Cons.prems(2) rm by simp
    then show ?thesis using d1 by simp
  next
    case (Inr x)
    obtain ent paths where x: "x = (ent, paths)" by (cases x)
    have "purge_loop dump cfg remove_files es (c + 1) (d @ paths) fs1 m1 = (r, fs', m')"
      using Cons.prems(2) rm Inr x by simp
    from Cons.IH[OF d1 this] show ?thesis .
  qed
qed

lemma purge_mods_distinct:
  assumes "distinct (map entry_id (mods m))"
    and "purge_mods dump cfg m remove_files fs = (r, fs', m')"
  shows "distinct (map entry_id (mods m'))"
proof (cases "ensure_directories cfg (Some m) fs")
  case (Pair r1 fs1)
  show ?thesis
  proof (cases r1)
    case (Inl e)
    then show ?thesis using assms Pair by (simp add: purge_mods_def)
  next
    case (Inr u)
    then have "purge_loop dump cfg remove_files (mods m) 0 [] fs1 m = (r, fs', m')"
      using assms(2) Pair by (simp add: purge_mods_def)
    from purge_loop_distinct[OF assms(1) this] show ?thesis .
  qed
qed

lemma adopt_loop_distinct:
  "distinct (map entry_id (mods m)) \<Longrightarrow>
   distinct (map entry_id (mods (snd (adopt_loop H now fs files k m adopted))))"
proof (induction files arbitrary: k m adopted)
  case Nil
  then show ?case by simp
next
  case (Cons f files)
  show ?case
  proof (cases "add m (adopted_entry H (now k) m fs f)")
    case (Inl e)
    then show ?thesis using Cons by simp
  next
    case (Inr m1)
    have "distinct (map entry_id (mods m1))"
      using add_Inr[OF Inr] Cons.prems by simp
    from Cons.IH[OF this] show ?thesis using Inr by simp
  qed
qed

lemma init_manifest_distinct:
  assumes "init_manifest H dump now cfg force adopt_existing fs = (Inr (m0, k), fs0)"
  shows "distinct (map entry_id (mods m0))"
proof -
  let ?m = "\<lparr>schema_version = SUPPORTED_SCHEMA_VERSION,
             m_loader = (if server_type cfg \<noteq> [] then Some (lower (server_type cfg)) else None),
             m_minecraft_version = Some (minecraft_version cfg),
             m_mods_dir = DEFAULT_MODS_DIR, mods = []\<rparr>"
  have d: "distinct (map entry_id (mods ?m))" by simp
  have "m0 = ?m \<or> (\<exists>files fs1 ad. adopt_loop H now fs1 files 0 ?m [] = (ad, m0))"
    using assms
    by (auto simp: init_manifest_def Let_def adopt_existing_mods_def
        split: if_splits prod.splits sum.splits)
  then consider "m0 = ?m" | files fs1 ad where "adopt_loop H now fs1 files 0 ?m [] = (ad, m0)"
    by blast
  then show ?thesis
  proof cases
    case 1
    then show ?thesis by simp
  next
    case 2
    then have "m0 = snd (adopt_loop H now fs1 files 0 ?m [])" by simp
    then show ?thesis using adopt_loop_distinct[OF d] by simp
  qed
qed

lemma resolve_for_add_passed:
  assumes "resolvers t = Some rs" and "\<forall>req fs0. fst (rs req fs0) = Inr resolved"
    and "assert_version_compatibility (or_default (or_else mod_id (r_mod_id resolved)) ns)
           (r_loader resolved) (resolved_versions resolved) pl pv = Inr ()"
  shows "fst (resolve_for_add resolvers cfg m2 False t ns fo mod_id nm pl pv vh pid fs1) = Inr resolved"
proof -
  let ?req = "\<lparr>req_cfg = cfg, req_manifest = m2, req_source = ns,
               req_mods_directory = mods_dir cfg (Some m2), req_filename_override = fo,
               req_suggested_mod_id = mod_id, req_suggested_name = nm,
               req_preferred_loader = pl, req_preferred_mc_version = pv,
               req_version_hint = vh, req_project_id = pid\<rparr>"
  obtain fs2 where "rs ?req fs1 = (Inr resolved, fs2)"
    using assms(2) by (metis prod.collapse)
  then show ?thesis
    using assms(1,3) by (simp add: resolve_for_add_def get_source_resolver_def)
qed

lemma add_mod_manifest_only_existing:
  assumes "fst (ensure_directories cfg (Some m) fs) = Inr ()" and "t \<in> set SOURCE_TYPES"
    and "f \<noteq> []" and "i \<noteq> []" and "i \<in> entry_id ` set (mods m)"
  shows "fst (add_mod resolvers user_path dump now cfg src m (Some i) nm en (Some t) True (Some f) lh mh vh pid fs) =
           Inl (ManifestError (''Mod '' @ [CHR 0x27] @ i @ [CHR 0x27] @ '' already exists in manifest.''))"
proof -
  obtain fs1 where e1: "ensure_directories cfg (Some m) fs = (Inr (), fs1)"
    using assms(1) by (cases "ensure_directories cfg (Some m) fs") auto
  have nf: "\<not> (True \<and> \<not> truthy (Some f))" using assms(3) by (simp add: truthy_def)
  note s = add_mod_steps[OF e1 nf assms(2), of resolvers user_path dump now src "Some i" nm en lh mh vh pid]
  let ?res = "\<lparr>r_filename = f,
                 r_source = \<lparr>ms_type = t, ms_path = None, ms_url = None,
                             ms_project_id = None, ms_version_id = None, ms_slug = None,
                             ms_download_url = None, ms_notes = Some ''Manifest entry only''\<rparr>,
                 r_hashes = None, r_mod_id = None, r_name = None, r_version = None,
                 r_loader = None, r_mc_version = None, r_mc_versions = None\<rparr>"
  have i: "or_default (or_else (Some i) (r_mod_id ?res)) (derive_mod_id (r_filename ?res)) = i"
    using assms(4) by (simp add: or_default_def or_else_def truthy_def)
  have a: "r_filename ?res \<noteq> []" using assms(3) by simp
  have b: "or_default (or_else (Some i) (r_mod_id ?res)) (derive_mod_id (r_filename ?res))
             \<in> entry_id ` set (mods (with_defaults cfg m))"
    unfolding i using assms(5) by (simp add: with_defaults_mods)
  have r: "resolve_for_add resolvers cfg m2 True t ns (Some f) (Some i) nm pl pv vh' pid fs1 = (Inr ?res, fs1)"
    for m2 ns pl pv vh'
    by (simp add: resolve_for_add_def)
  show ?thesis
    unfolding s r using add_resolved_existing[OF a b, of dump now cfg nm en] i
    by simp
qed

lemma add_mod_resolved_existing:
  assumes "fst (ensure_directories cfg (Some m) fs) = Inr ()" and "t \<in> set SOURCE_TYPES"
    and "resolvers t = Some rs" and "\<forall>req fs0. fst (rs req fs0) = Inr resolved"
    and "assert_version_compatibility
           (or_default (or_else mod_id (r_mod_id resolved)) (fst (normalize_source_identifier src t)))
           (r_loader resolved) (resolved_versions resolved)
           (preferred_loader_of cfg m lh) (preferred_mc_version_of cfg m mh) = Inr ()"
    and "r_filename resolved \<noteq> []"
    and "or_default (or_else mod_id (r_mod_id resolved)) (derive_mod_id (r_filename resolved))
           \<in> entry_id ` set (mods m)"
  shows "fst (add_mod resolvers user_path dump now cfg src m mod_id nm en (Some t) False fo lh mh vh pid fs) =
           Inl (ManifestError (''Mod '' @ [CHR 0x27] @
             or_default (or_else mod_id (r_mod_id resolved)) (derive_mod_id (r_filename resolved)) @
             [CHR 0x27] @ '' already exists in manifest.''))"
proof -
  obtain fs1 where e1: "ensure_directories cfg (Some m) fs = (Inr (), fs1)"
    using assms(1) by (cases "ensure_directories cfg (Some m) fs") auto
  have nf: "\<not> (False \<and> \<not> truthy fo)" by simp
  note s = add_mod_steps[OF e1 nf assms(2), of resolvers user_path dump now src mod_id nm en lh mh vh pid]
  let ?vh = "if vh = None \<and> truthy (snd (normalize_source_identifier src t))
              then snd (normalize_source_identifier src t) else vh"
  let ?r = "resolve_for_add resolvers cfg (with_defaults cfg m) False t
             (fst (normalize_source_identifier src t)) fo mod_id nm
             (preferred_loader_of cfg m lh) (preferred_mc_version_of cfg m mh) ?vh pid fs1"
  have r: "fst ?r = Inr resolved"
    by (rule resolve_for_add_passed[where resolvers = resolvers and t = t and rs = rs and resolved = resolved,
          OF assms(3) assms(4) assms(5)])
  have x: "or_default (or_else mod_id (r_mod_id resolved)) (derive_mod_id (r_filename resolved))
           \<in> entry_id ` set (mods (with_defaults cfg m))"
    using assms(7) by (simp add: with_defaults_mods)
  show ?thesis
    unfolding s using r
    by (cases ?r) (simp add: add_resolved_existing[OF assms(6) x])
qed

text \<open>
  C9: the entry ids of a manifest stay pairwise distinct. The manifest that init returns has
  distinct ids, with or without adoption, and add, enable or disable, remove and purge turn
  a manifest with distinct ids into one with distinct ids, whatever they return. When add
  succeeds, the id of the new entry was not in the manifest and the entry is appended; when
  it raises a \<^verbatim>\<open>ManifestError\<close> the entries are unchanged. \<^verbatim>\<open>ModManifest.add\<close> raises on an id
  that is present, and so does \<^verbatim>\<open>add_mod\<close> once it has the id of the entry: the id given, or
  else the resolver's, or else the one derived from the file name.
\<close>

theorem entry_ids_stay_unique:
  "(init_manifest H dump now cfg force adopt_existing fs = (Inr (m0, k), fs0) \<longrightarrow>
      distinct (map entry_id (mods m0))) \<and>
   (distinct (map entry_id (mods m)) \<longrightarrow>
      distinct (map entry_id (mods (snd (snd
        (add_mod resolvers user_path dump now cfg src m mod_id nm en st manifest_only fo lh mh vh pid fs))))) \<and>
      distinct (map entry_id (mods (snd (snd (set_enabled dump cfg m i b move_files fs))))) \<and>
      distinct (map entry_id (mods (snd (snd (remove_mod dump cfg m i remove_files fs))))) \<and>
      distinct (map entry_id (mods (snd (snd (purge_mods dump cfg m remove_files fs)))))) \<and>
   (\<forall>e. fst (add_mod resolvers user_path dump now cfg src m mod_id nm en st manifest_only fo lh mh vh pid fs) = Inr e \<longrightarrow>
      entry_id e \<notin> entry_id ` set (mods m) \<and>
      mods (snd (snd (add_mod resolvers user_path dump now cfg src m mod_id nm en st manifest_only fo lh mh vh pid fs))) =
        mods m @ [e]) \<and>
   (\<forall>msg. fst (add_mod resolvers user_path dump now cfg src m mod_id nm en st manifest_only fo lh mh vh pid fs) =
        Inl (ManifestError msg) \<longrightarrow>
      mods (snd (snd (add_mod resolvers user_path dump now cfg src m mod_id nm en st manifest_only fo lh mh vh pid fs))) =
        mods m) \<and>
   (entry_id e0 \<in> entry_id ` set (mods m) \<longrightarrow>
      add m e0 = Inl (ManifestError (''Mod '' @ [CHR 0x27] @ entry_id e0 @ [CHR 0x27] @ '' already exists in manifest''))) \<and>
   (fst (ensure_directories cfg (Some m) fs) = Inr () \<and> t \<in> set SOURCE_TYPES \<and>
    f \<noteq> [] \<and> j \<noteq> [] \<and> j \<in> entry_id ` set (mods m) \<longrightarrow>
      fst (add_mod resolvers user_path dump now cfg src m (Some j) nm en (Some t) True (Some f) lh mh vh pid fs) =
        Inl (ManifestError (''Mod '' @ [CHR 0x27] @ j @ [CHR 0x27] @ '' already exists in manifest.''))) \<and>
   (fst (ensure_directories cfg (Some m) fs) = Inr () \<and> t \<in> set SOURCE_TYPES \<and>
    resolvers t = Some rs \<and> (\<forall>req fs0. fst (rs req fs0) = Inr resolved) \<and>
    assert_version_compatibility
      (or_default (or_else mod_id (r_mod_id resolved)) (fst (normalize_source_identifier src t)))
      (r_loader resolved) (resolved_versions resolved)
      (preferred_loader_of cfg m lh) (preferred_mc_version_of cfg m mh) = Inr () \<and>
    r_filename resolved \<noteq> [] \<and>
    or_default (or_else mod_id (r_mod_id resolved)) (derive_mod_id (r_filename resolved))
      \<in> entry_id ` set (mods m) \<longrightarrow>
      fst (add_mod resolvers user_path dump now cfg src m mod_id nm en (Some t) False fo lh mh vh pid fs) =
        Inl (ManifestError (''Mod '' @ [CHR 0x27] @
          or_default (or_else mod_id (r_mod_id resolved)) (derive_mod_id (r_filename resolved)) @
          [CHR 0x27] @ '' already exists in manifest.'')))"
proof -
  let ?a = "add_mod resolvers user_path dump now cfg src m mod_id nm en st manifest_only fo lh mh vh pid fs"
  have pa: "?a = (fst ?a, fst (snd ?a), snd (snd ?a))" by simp
  note am = add_mod_mods[OF pa]
  have 1: "init_manifest H dump now cfg force adopt_existing fs = (Inr (m0, k), fs0) \<longrightarrow>
      distinct (map entry_id (mods m0))"
    using init_manifest_distinct by blast
  have 2: "distinct (map entry_id (mods (snd (snd ?a))))" if d: "distinct (map entry_id (mods m))"
    using am(3) d by auto
  have 3: "distinct (map entry_id (mods (snd (snd (set_enabled dump cfg m i b move_files fs)))))"
    if d: "distinct (map entry_id (mods m))"
    using set_enabled_ids[of dump cfg m i b move_files fs
        "fst (set_enabled dump cfg m i b move_files fs)"
        "fst (snd (set_enabled dump cfg m i b move_files fs))"
        "snd (snd (set_enabled dump cfg m i b move_files fs))"] d
    by simp
  have 4: "distinct (map entry_id (mods (snd (snd (remove_mod dump cfg m i remove_files fs)))))"
    if d: "distinct (map entry_id (mods m))"
    using remove_mod_distinct[OF d, of dump cfg i remove_files fs
        "fst (remove_mod dump cfg m i remove_files fs)"
        "fst (snd (remove_mod dump cfg m i remove_files fs))"
        "snd (snd (remove_mod dump cfg m i remove_files fs))"]
    by simp
  have 5: "distinct (map entry_id (mods (snd (snd (purge_mods dump cfg m remove_files fs)))))"
    if d: "distinct (map entry_id (mods m))"
    using purge_mods_distinct[OF d, of dump cfg remove_files fs
        "fst (purge_mods dump cfg m remove_files fs)"
        "fst (snd (purge_mods dump cfg m remove_files fs))"
        "snd (snd (purge_mods dump cfg m remove_files fs))"]
    by simp
  have 6: "\<forall>e. fst ?a = Inr e \<longrightarrow>
      entry_id e \<notin> entry_id ` set (mods m) \<and> mods (snd (snd ?a)) = mods m @ [e]"
    using am(1) by blast
  have 7: "\<forall>msg. fst ?a = Inl (ManifestError msg) \<longrightarrow> mods (snd (snd ?a)) = mods m"
    using am(2) by blast
  have 8: "entry_id e0 \<in> entry_id ` set (mods m) \<longrightarrow>
      add m e0 = Inl (ManifestError (''Mod '' @ [CHR 0x27] @ entry_id e0 @ [CHR 0x27] @ '' already exists in manifest''))"
    using add_existing by blast
  have 9: "fst (ensure_directories cfg (Some m) fs) = Inr () \<and> t \<in> set SOURCE_TYPES \<and>
    f \<noteq> [] \<and> j \<noteq> [] \<and> j \<in> entry_id ` set (mods m) \<longrightarrow>
      fst (add_mod resolvers user_path dump now cfg src m (Some j) nm en (Some t) True (Some f) lh mh vh pid fs) =
        Inl (ManifestError (''Mod '' @ [CHR 0x27] @ j @ [CHR 0x27] @ '' already exists in manifest.''))"
    using add_mod_manifest_only_existing by blast
  have 10: "fst (add_mod resolvers user_path dump now cfg src m mod_id nm en (Some t) False fo lh mh vh pid fs) =
        Inl (ManifestError (''Mod '' @ [CHR 0x27] @
          or_default (or_else mod_id (r_mod_id resolved)) (derive_mod_id (r_filename resolved)) @
          [CHR 0x27] @ '' already exists in manifest.''))"
    if "fst (ensure_directories cfg (Some m) fs) = Inr ()" "t \<in> set SOURCE_TYPES"
    "resolvers t = Some rs" "\<forall>req fs0. fst (rs req fs0) = Inr resolved"
    "assert_version_compatibility
      (or_default (or_else mod_id (r_mod_id resolved)) (fst (normalize_source_identifier src t)))
      (r_loader resolved) (resolved_versions resolved)
      (preferred_loader_of cfg m lh) (preferred_mc_version_of cfg m mh) = Inr ()"
    "r_filename resolved \<noteq> []"
    "or_default (or_else mod_id (r_mod_id resolved)) (derive_mod_id (r_filename resolved))
      \<in> entry_id ` set (mods m)"
    by (rule add_mod_resolved_existing[where resolvers = resolvers and t = t and rs = rs
          and resolved = resolved, OF that])
  show ?thesis
    apply (intro conjI)
    subgoal by (rule 1)
    subgoal using 2 3 4 5 by blast
    subgoal by (rule 6)
    subgoal by (rule 7)
    subgoal by (rule 8)
    subgoal by (rule 9)
    subgoal using 10 by blast
    done
qed

theorem entry_ids_stay_unique_witness:
  "distinct (map entry_id (mods ex_solo)) \<and>
   fst (add_mod (ex_resolvers (ex_resolved None None)) ex_user_path ex_dump ex_now ex_cfg ''sodium'' ex_solo
          (Some ''sodium'') None True (Some ''custom'') True (Some ''sodium.jar'')
          None None None None ex_fs_live) =
     Inl (ManifestError (''Mod '' @ [CHR 0x27] @ ''sodium'' @ [CHR 0x27] @ '' already exists in manifest.'')) \<and>
   distinct (map entry_id (mods (snd (snd (remove_mod ex_dump ex_cfg ex_solo ''sodium'' True ex_fs_live)))))"
proof -
  have d: "distinct (map entry_id (mods ex_solo))"
    by (simp add: ex_solo_def ex_manifest_sel)
  have e: "fst (ensure_directories ex_cfg (Some ex_solo) ex_fs_live) = Inr ()"
    by (simp add: ex_solo_def ex_ensure_live)
  have t: "''custom'' \<in> set SOURCE_TYPES" by (simp add: SOURCE_TYPES_def)
  have i: "''sodium'' \<in> entry_id ` set (mods ex_solo)"
    by (simp add: ex_solo_def ex_manifest_sel ex_entry_sel)
  note th = entry_ids_stay_unique[where m = ex_solo and cfg = ex_cfg and fs = ex_fs_live
      and dump = ex_dump and t = "''custom''" and f = "''sodium.jar''" and j = "''sodium''"
      and i = "''sodium''" and remove_files = True
      and resolvers = "ex_resolvers (ex_resolved None None)" and user_path = ex_user_path
      and now = ex_now and src = "''sodium''" and nm = None and en = True
      and lh = None and mh = None and vh = None and pid = None]
  have a: "fst (add_mod (ex_resolvers (ex_resolved None None)) ex_user_path ex_dump ex_now ex_cfg ''sodium'' ex_solo
          (Some ''sodium'') None True (Some ''custom'') True (Some ''sodium.jar'')
          None None None None ex_fs_live) =
     Inl (ManifestError (''Mod '' @ [CHR 0x27] @ ''sodium'' @ [CHR 0x27] @ '' already exists in manifest.''))"
    using th e t i by blast
  have r: "distinct (map entry_id (mods (snd (snd (remove_mod ex_dump ex_cfg ex_solo ''sodium'' True ex_fs_live)))))"
    using th d by blast
  show ?thesis using d a r by blast
qed

subsection \<open>Enable or disable without the file\<close>

lemma joinpath_empty: "joinpath d [] = d"
  by (simp add: joinpath_def path_parts_def)

lemma joinpath_dot: "joinpath d ''.'' = d"
  by (simp add: joinpath_def path_parts_def)

lemma ex_dot_exists:
  "os_exists ex_fs_live (joinpath [''srv'', ''data'', ''mods''] ''.'') = Inr True"
  "os_exists ex_fs_live (joinpath [''srv'', ''data'', ''mods''] []) = Inr True"
  "os_exists ex_fs_live (joinpath [''srv'', ''data'', ''mods''] ''..'') = Inr True"
  by (simp_all add: joinpath_def path_parts_def os_exists_def realpath_def is_dir_def exists_def
      node_at_def ex_fs_live_def path_length_def PATH_MAX_def NAME_MAX_def)




subsection \<open>The compatibility check in add\<close>













end
